theory Spec2Isabelle
  imports Main "HOL-Library.Sublist" "HOL-Library.Monad_Syntax"
begin

section \<open>Data model (types/ash.ts, in src/unnamed/part_005)\<close>

text \<open>
  A finding as the dashboard receives it from \<^verbatim>\<open>JSON.parse\<close>. The TypeScript type
  \<^verbatim>\<open>SeverityLevel\<close> is a union of four string literals, erased at run time: the
  field holds whatever string the JSON document carries, so it is a \<^typ>\<open>string\<close> here.
  Optional fields are \<^typ>\<open>'a option\<close>. The numeric fields are JavaScript numbers; no
  operation of the model computes with them, they are carried as integers.
\<close>

record Finding =
  tool :: string
  severity :: string
  message :: string
  location :: string
  description :: "string option"
  recommendation :: "string option"
  lineNumber :: "int option"
  pattern :: "string option"
  cve :: "string option"
  score :: "int option"

record ScanMetadata =
  scanDate :: string
  totalFindings :: int
  scan_tools :: "string list"
  duration :: "int option"
  version :: "string option"

record ASHReport =
  findings :: "Finding list"
  metadata :: ScanMetadata

record SeverityConfig =
  color :: string
  icon :: string
  priority :: nat

section \<open>The severity table (lib/utils.ts, in src/unnamed/part_001)\<close>

text \<open>
  \<^verbatim>\<open>severityConfig\<close> is an object literal; \<^verbatim>\<open>Object.entries\<close> walks its keys in the
  order they are written, so it is an association list in that order. The icons are
  emoji, given here by their UTF-8 bytes.
\<close>

definition severityConfig :: "(string \<times> SeverityConfig) list" where
  "severityConfig =
    [(''CRITICAL'', \<lparr>color = ''bg-red-100 text-red-800 border-red-300'',
                     icon = [CHR 0xF0, CHR 0x9F, CHR 0x94, CHR 0xB4], priority = 4\<rparr>),
     (''HIGH'', \<lparr>color = ''bg-orange-100 text-orange-800 border-orange-300'',
                 icon = [CHR 0xF0, CHR 0x9F, CHR 0x9F, CHR 0xA0], priority = 3\<rparr>),
     (''MEDIUM'', \<lparr>color = ''bg-yellow-100 text-yellow-800 border-yellow-300'',
                   icon = [CHR 0xF0, CHR 0x9F, CHR 0x9F, CHR 0xA1], priority = 2\<rparr>),
     (''LOW'', \<lparr>color = ''bg-green-100 text-green-800 border-green-300'',
                icon = [CHR 0xF0, CHR 0x9F, CHR 0x9F, CHR 0xA2], priority = 1\<rparr>)]"

text \<open>The keys of the table, in \<^verbatim>\<open>Object.entries\<close> order.\<close>

definition severityKeys :: "string list" where
  "severityKeys = map fst severityConfig"

section \<open>Severity counts (SummaryCards, in src/src/components/SummaryCards.tsx)\<close>

text \<open>
  \<^verbatim>\<open>findings.reduce((acc, finding) => { acc[finding.severity] =
  (acc[finding.severity] || 0) + 1; return acc }, {})\<close>.
  The accumulator object is a map from property names to numbers. \<^verbatim>\<open>x || 0\<close> is
  \<^verbatim>\<open>0\<close> for a missing property and for the number 0, and \<^verbatim>\<open>x\<close> for any other number.
  (Property names that an empty object inherits from \<^verbatim>\<open>Object.prototype\<close>, such as
  \<^verbatim>\<open>constructor\<close>, are not among the four keys the cards read and are not modelled.)
\<close>

definition or_zero :: "nat option \<Rightarrow> nat" where
  "or_zero v = (case v of None \<Rightarrow> 0 | Some n \<Rightarrow> if n = 0 then 0 else n)"

definition count_step :: "(string \<rightharpoonup> nat) \<Rightarrow> Finding \<Rightarrow> (string \<rightharpoonup> nat)" where
  "count_step acc finding = acc(severity finding \<mapsto> or_zero (acc (severity finding)) + 1)"

definition counts :: "Finding list \<Rightarrow> (string \<rightharpoonup> nat)" where
  "counts fs = foldl count_step Map.empty fs"

text \<open>
  The cards: \<^verbatim>\<open>Object.entries(severityConfig).map(([severity, config]) => ...)\<close> with
  \<^verbatim>\<open>const count = counts[severityKey] || 0\<close>; one card per key of the table, showing
  the key and its count.
\<close>

definition SummaryCards :: "Finding list \<Rightarrow> (string \<times> nat) list" where
  "SummaryCards fs = map (\<lambda>(sev, config). (sev, or_zero (counts fs sev))) severityConfig"

section \<open>Filtering and tool tabs (FindingsTable, in src/src/components/SummaryCards.tsx)\<close>

text \<open>
  \<^verbatim>\<open>findings.filter(finding => { const matchesTab = activeTab === 'all' ||
  finding.tool === activeTab; const matchesSeverity =
  severityFilter.includes(finding.severity); return matchesTab && matchesSeverity })\<close>
\<close>

definition filteredFindings :: "Finding list \<Rightarrow> string \<Rightarrow> string list \<Rightarrow> Finding list" where
  "filteredFindings fs activeTab severityFilter =
     filter (\<lambda>finding.
        (activeTab = ''all'' \<or> tool finding = activeTab) \<and>
        severity finding \<in> set severityFilter) fs"

text \<open>
  \<^verbatim>\<open>[...new Set(findings.map(f => f.tool))]\<close>: the \<^verbatim>\<open>Set\<close> constructor adds the
  elements one by one, an element already present is skipped, and spreading the set
  lists its elements in insertion order.
\<close>

definition Set_add :: "string list \<Rightarrow> string \<Rightarrow> string list" where
  "Set_add s t = (if t \<in> set s then s else s @ [t])"

definition new_Set :: "string list \<Rightarrow> string list" where
  "new_Set xs = foldl Set_add [] xs"

definition tools :: "Finding list \<Rightarrow> string list" where
  "tools fs = new_Set (map tool fs)"

text \<open>
  The severity selection is component state: it starts with all four levels, and the
  only writer is the click handler of the toggle buttons, one button per key of the
  severity table:
  \<^verbatim>\<open>setSeverityFilter(prev => prev.includes(severityKey) ?
  prev.filter(s => s !== severityKey) : [...prev, severityKey])\<close>.
\<close>

definition initialSeverityFilter :: "string list" where
  "initialSeverityFilter = [''CRITICAL'', ''HIGH'', ''MEDIUM'', ''LOW'']"

definition toggleSeverity :: "string list \<Rightarrow> string \<Rightarrow> string list" where
  "toggleSeverity prev severityKey =
     (if severityKey \<in> set prev then filter (\<lambda>s. s \<noteq> severityKey) prev
      else prev @ [severityKey])"

text \<open>The selections the component can reach: any sequence of clicks on the buttons.\<close>

inductive reachableFilter :: "string list \<Rightarrow> bool" where
  init: "reachableFilter initialSeverityFilter"
| click: "reachableFilter prev \<Longrightarrow> k \<in> set severityKeys \<Longrightarrow>
          reachableFilter (toggleSeverity prev k)"

section \<open>The selection state of the findings table (FindingsTable)\<close>

text \<open>
  The module binds \<^verbatim>\<open>severityConfig\<close> to an object that is not frozen, so the table
  is part of the mutable state here, beside the state of \<^verbatim>\<open>FindingsTable\<close>: the
  findings it was given, the active tab, the severity selection and the finding shown in
  the dialog.
\<close>

record UIState =
  ui_config :: "(string \<times> SeverityConfig) list"
  ui_findings :: "Finding list"
  ui_activeTab :: string
  ui_severityFilter :: "string list"
  ui_selectedFinding :: "Finding option"

definition initialUI :: "Finding list \<Rightarrow> UIState" where
  "initialUI fs =
     \<lparr>ui_config = severityConfig, ui_findings = fs, ui_activeTab = ''all'',
      ui_severityFilter = initialSeverityFilter, ui_selectedFinding = None\<rparr>"

text \<open>
  What the user can do: click a severity button (one per key of the table), click the
  "All Tools" tab or the tab of a tool, click "View Details" in a row of the filtered
  table, close the dialog; and the component renders, which reads the table and the
  state. A click on a control that is not on the page does nothing.
\<close>

datatype Action =
    ClickSeverity string
  | ClickAllTools
  | ClickTool string
  | ViewDetails Finding
  | CloseDetails
  | Render

fun step :: "UIState \<Rightarrow> Action \<Rightarrow> UIState" where
  "step ui (ClickSeverity k) =
     (if k \<in> set (map fst (ui_config ui))
      then ui\<lparr>ui_severityFilter := toggleSeverity (ui_severityFilter ui) k\<rparr> else ui)"
| "step ui ClickAllTools = ui\<lparr>ui_activeTab := ''all''\<rparr>"
| "step ui (ClickTool t) =
     (if t \<in> set (tools (ui_findings ui)) then ui\<lparr>ui_activeTab := t\<rparr> else ui)"
| "step ui (ViewDetails f) =
     (if f \<in> set (filteredFindings (ui_findings ui) (ui_activeTab ui) (ui_severityFilter ui))
      then ui\<lparr>ui_selectedFinding := Some f\<rparr> else ui)"
| "step ui CloseDetails = ui\<lparr>ui_selectedFinding := None\<rparr>"
| "step ui Render = ui"


section \<open>Loading the report on startup (App, in src/unnamed/part_001)\<close>

subsection \<open>The values \<^verbatim>\<open>JSON.parse\<close> returns\<close>

text \<open>
  \<^verbatim>\<open>JSON.parse\<close> returns any JSON value, not only a report; the annotation
  \<^verbatim>\<open>const parsed: ASHReport\<close> is erased at run time. An object is the list of its own
  properties, one entry per name. Numbers are carried as integers; the model only asks
  whether a number is zero.
\<close>

datatype JSValue =
    JNull
  | JBool bool
  | JNumber int
  | JString string
  | JArray "JSValue list"
  | JObject "(string \<times> JSValue) list"

text \<open>\<^verbatim>\<open>!data\<close> is false exactly for the truthy values.\<close>

fun truthy :: "JSValue \<Rightarrow> bool" where
  "truthy JNull = False"
| "truthy (JBool b) = b"
| "truthy (JNumber n) = (n \<noteq> 0)"
| "truthy (JString s) = (s \<noteq> [])"
| "truthy (JArray xs) = True"
| "truthy (JObject kvs) = True"

text \<open>
  A JSON value read at the types of \<^verbatim>\<open>types/ash.ts\<close>: \<open>None\<close> when it does not
  have the declared shape. A required field must be present with its type; an optional
  field is absent or present with its type.
\<close>

fun as_string :: "JSValue \<Rightarrow> string option" where
  "as_string (JString s) = Some s"
| "as_string v = None"

fun as_number :: "JSValue \<Rightarrow> int option" where
  "as_number (JNumber n) = Some n"
| "as_number v = None"

definition required :: "(JSValue \<Rightarrow> 'a option) \<Rightarrow> (string \<times> JSValue) list \<Rightarrow> string \<Rightarrow> 'a option" where
  "required decode kvs name = (case map_of kvs name of None \<Rightarrow> None | Some v \<Rightarrow> decode v)"

definition optional :: "(JSValue \<Rightarrow> 'a option) \<Rightarrow> (string \<times> JSValue) list \<Rightarrow> string \<Rightarrow> 'a option option" where
  "optional decode kvs name =
     (case map_of kvs name of None \<Rightarrow> Some None | Some v \<Rightarrow> map_option Some (decode v))"

fun as_Finding :: "JSValue \<Rightarrow> Finding option" where
  "as_Finding (JObject kvs) =
     do {
       t \<leftarrow> required as_string kvs ''tool'';
       s \<leftarrow> required as_string kvs ''severity'';
       m \<leftarrow> required as_string kvs ''message'';
       l \<leftarrow> required as_string kvs ''location'';
       d \<leftarrow> optional as_string kvs ''description'';
       r \<leftarrow> optional as_string kvs ''recommendation'';
       n \<leftarrow> optional as_number kvs ''lineNumber'';
       p \<leftarrow> optional as_string kvs ''pattern'';
       c \<leftarrow> optional as_string kvs ''cve'';
       x \<leftarrow> optional as_number kvs ''score'';
       Some \<lparr>tool = t, severity = s, message = m, location = l, description = d,
             recommendation = r, lineNumber = n, pattern = p, cve = c, score = x\<rparr>
     }"
| "as_Finding v = None"

fun as_list :: "(JSValue \<Rightarrow> 'a option) \<Rightarrow> JSValue \<Rightarrow> 'a list option" where
  "as_list decode (JArray xs) = those (map decode xs)"
| "as_list decode v = None"

fun as_ScanMetadata :: "JSValue \<Rightarrow> ScanMetadata option" where
  "as_ScanMetadata (JObject kvs) =
     do {
       d \<leftarrow> required as_string kvs ''scanDate'';
       n \<leftarrow> required as_number kvs ''totalFindings'';
       t \<leftarrow> required (as_list as_string) kvs ''tools'';
       u \<leftarrow> optional as_number kvs ''duration'';
       v \<leftarrow> optional as_string kvs ''version'';
       Some \<lparr>scanDate = d, totalFindings = n, scan_tools = t, duration = u, version = v\<rparr>
     }"
| "as_ScanMetadata v = None"

fun as_ASHReport :: "JSValue \<Rightarrow> ASHReport option" where
  "as_ASHReport (JObject kvs) =
     do {
       f \<leftarrow> required (as_list as_Finding) kvs ''findings'';
       m \<leftarrow> required as_ScanMetadata kvs ''metadata'';
       Some \<lparr>findings = f, metadata = m\<rparr>
     }"
| "as_ASHReport v = None"

subsection \<open>The component\<close>

text \<open>
  The component state: \<^verbatim>\<open>useState<ASHReport | null>(null)\<close> and
  \<^verbatim>\<open>useState<boolean>(true)\<close>. The data is the initial \<^verbatim>\<open>null\<close>, the sample object
  the code builds, or whatever \<^verbatim>\<open>JSON.parse\<close> returned. \<open>effects\<close> lists what the
  component does to the outside, in order: calls of \<^verbatim>\<open>console.error\<close> and network
  requests.
\<close>

datatype Data = Null | Sample ASHReport | Parsed JSValue

datatype Effect = ConsoleError string | NetworkFetch string

record AppState =
  data :: Data
  loading :: bool
  effects :: "Effect list"

definition initialAppState :: AppState where
  "initialAppState = \<lparr>data = Null, loading = True, effects = []\<rparr>"

text \<open>
  The built-in sample report of the \<^verbatim>\<open>else\<close> branch. Its scan date is
  \<^verbatim>\<open>new Date().toISOString()\<close>, the parameter \<open>now\<close>.
\<close>

definition sampleData :: "string \<Rightarrow> ASHReport" where
  "sampleData now =
    \<lparr>findings =
       [\<lparr>tool = ''Grype'', severity = ''CRITICAL'',
          message = ''Vulnerability CVE-2025-1234 in libfoo'',
          location = ''package.json'',
          description = Some ''A critical vulnerability has been discovered in libfoo that could allow remote code execution.'',
          recommendation = Some ''Upgrade to version 2.3.4 or later'',
          lineNumber = None, pattern = None, cve = Some ''CVE-2025-1234'', score = None\<rparr>,
        \<lparr>tool = ''git-secrets'', severity = ''HIGH'',
          message = ''AWS secret detected'',
          location = ''src/config.js'',
          description = Some ''AWS access key detected in source code.'',
          recommendation = Some ''Remove the hardcoded AWS access key and use environment variables or AWS IAM roles.'',
          lineNumber = Some 42, pattern = Some ''AKIA[0-9A-Z]{16}'', cve = None, score = None\<rparr>,
        \<lparr>tool = ''Semgrep'', severity = ''MEDIUM'',
          message = ''Potential SQL injection vulnerability'',
          location = ''src/database.js'',
          description = Some ''User input is directly concatenated into SQL query.'',
          recommendation = Some ''Use parameterized queries or prepared statements.'',
          lineNumber = Some 128, pattern = None, cve = None, score = None\<rparr>,
        \<lparr>tool = ''CDK-nag'', severity = ''LOW'',
          message = ''S3 bucket versioning not enabled'',
          location = ''infrastructure/s3-bucket.ts'',
          description = Some ''S3 bucket does not have versioning enabled.'',
          recommendation = Some ''Enable versioning for better data protection and recovery options.'',
          lineNumber = None, pattern = None, cve = None, score = None\<rparr>],
     metadata =
       \<lparr>scanDate = now, totalFindings = 4,
         scan_tools = [''Grype'', ''git-secrets'', ''Semgrep'', ''CDK-nag''],
         duration = None, version = None\<rparr>\<rparr>"

text \<open>
  The body of \<^verbatim>\<open>useEffect\<close>. \<open>textContent\<close> is
  \<^verbatim>\<open>document.getElementById("ash-data")?.textContent\<close>: \<open>None\<close> when the page has
  no such element. \<^verbatim>\<open>if (jsonData)\<close> holds for a non-empty string only.
  \<^verbatim>\<open>JSON.parse\<close> is the platform's: it is the parameter \<open>JSON_parse\<close>, \<open>None\<close> when
  it throws. The \<^verbatim>\<open>try\<close> branch stores what it returned, whatever it is; the
  \<^verbatim>\<open>catch\<close> branch only logs (the text of the error object is the platform's and is
  not part of the logged effect).
\<close>

definition App_useEffect ::
  "(string \<Rightarrow> JSValue option) \<Rightarrow> string \<Rightarrow> string option \<Rightarrow> AppState \<Rightarrow> AppState" where
  "App_useEffect JSON_parse now textContent st =
     (let st' =
        (case textContent of
           Some jsonData \<Rightarrow>
             if jsonData \<noteq> [] then
               (case JSON_parse jsonData of
                  Some parsed \<Rightarrow> st\<lparr>data := Parsed parsed\<rparr>
                | None \<Rightarrow>
                    st\<lparr>effects := effects st @ [ConsoleError ''Failed to parse ASH data:'']\<rparr>)
             else st\<lparr>data := Sample (sampleData now)\<rparr>
         | None \<Rightarrow> st\<lparr>data := Sample (sampleData now)\<rparr>)
      in st'\<lparr>loading := False\<rparr>)"

text \<open>
  \<^verbatim>\<open>data.findings\<close> on a truthy value: the own property of an object, and
  \<^verbatim>\<open>undefined\<close> (\<open>None\<close>) when the object has none or the value is not an object.
\<close>

fun findings_property :: "JSValue \<Rightarrow> JSValue option" where
  "findings_property (JObject kvs) = map_of kvs ''findings''"
| "findings_property v = None"

text \<open>
  What \<^verbatim>\<open>App\<close> does when it renders: the spinner while loading, the "No Data
  Available" page when \<^verbatim>\<open>!data\<close>, the report page otherwise. The report page is
  built by reading \<^verbatim>\<open>data.findings\<close> and \<^verbatim>\<open>data.metadata\<close>. For a value with the
  shape of a report that is \<open>ReportPage\<close> of the report. For a truthy value whose
  \<^verbatim>\<open>findings\<close> is \<^verbatim>\<open>undefined\<close> or \<^verbatim>\<open>null\<close> (such as \<^verbatim>\<open>{}\<close>, a number or a
  string), \<^verbatim>\<open>data.findings.length\<close> raises a \<^verbatim>\<open>TypeError\<close> and nothing is
  rendered: \<open>RenderThrows\<close>. For the other truthy values without the shape of a report
  the model stops at \<open>ReportOfNonReport\<close>: the same JSX is evaluated on the value, and
  raises where a read or a call fails or shows what it finds.
\<close>

datatype View =
    LoadingView
  | NoDataAvailable
  | ReportPage ASHReport
  | RenderThrows
  | ReportOfNonReport JSValue

definition App_render :: "AppState \<Rightarrow> View" where
  "App_render st =
     (if loading st then LoadingView
      else case data st of
             Null \<Rightarrow> NoDataAvailable
           | Sample report \<Rightarrow> ReportPage report
           | Parsed v \<Rightarrow>
               if \<not> truthy v then NoDataAvailable
               else (case as_ASHReport v of
                       Some report \<Rightarrow> ReportPage report
                     | None \<Rightarrow>
                         (case findings_property v of
                            None \<Rightarrow> RenderThrows
                          | Some JNull \<Rightarrow> RenderThrows
                          | Some f \<Rightarrow> ReportOfNonReport v)))"

section \<open>The report assembler (src/scripts/generate-report.js)\<close>

subsection \<open>String operations of the platform\<close>

text \<open>
  \<^verbatim>\<open>String.prototype.endsWith\<close>, \<^verbatim>\<open>indexOf\<close> (the first position where the search
  string occurs) and \<^verbatim>\<open>replace\<close> with a string pattern, as ECMAScript defines them.
  With a string pattern \<^verbatim>\<open>replace\<close> rewrites the first occurrence only, and still
  expands the dollar patterns of the replacement text: \<^verbatim>\<open>$$\<close> is a dollar sign,
  \<^verbatim>\<open>$&\<close> the matched text, \<^verbatim>\<open>$`\<close> (character 0x60) the text before the match and
  \<^verbatim>\<open>$'\<close> (character 0x27) the text after it; there is no capture group, so every
  other dollar sign stands for itself.
\<close>

definition endsWith :: "string \<Rightarrow> string \<Rightarrow> bool" where
  "endsWith s searchString =
     (length searchString \<le> length s \<and>
      drop (length s - length searchString) s = searchString)"

fun indexOf :: "string \<Rightarrow> string \<Rightarrow> nat option" where
  "indexOf [] searchValue = (if searchValue = [] then Some 0 else None)"
| "indexOf (c # s) searchValue =
     (if take (length searchValue) (c # s) = searchValue then Some 0
      else map_option Suc (indexOf s searchValue))"

fun GetSubstitution :: "string \<Rightarrow> string \<Rightarrow> string \<Rightarrow> string \<Rightarrow> string" where
  "GetSubstitution matched preceding following [] = []"
| "GetSubstitution matched preceding following [c] = [c]"
| "GetSubstitution matched preceding following (c # d # r) =
     (if c = CHR ''$'' \<and> d = CHR ''$'' then
        CHR ''$'' # GetSubstitution matched preceding following r
      else if c = CHR ''$'' \<and> d = CHR ''&'' then
        matched @ GetSubstitution matched preceding following r
      else if c = CHR ''$'' \<and> d = CHR 0x60 then
        preceding @ GetSubstitution matched preceding following r
      else if c = CHR ''$'' \<and> d = CHR 0x27 then
        following @ GetSubstitution matched preceding following r
      else c # GetSubstitution matched preceding following (d # r))"

definition String_replace :: "string \<Rightarrow> string \<Rightarrow> string \<Rightarrow> string" where
  "String_replace s searchValue replaceValue =
     (case indexOf s searchValue of
        None \<Rightarrow> s
      | Some pos \<Rightarrow>
          (let preceding = take pos s;
               following = drop (pos + length searchValue) s
           in preceding @
              GetSubstitution searchValue preceding following replaceValue @
              following))"

subsection \<open>The template\<close>

definition template :: string where
  \<open>template =
     ''<!DOCTYPE html>\<newline>'' @
     ''<html lang="en">\<newline>'' @
     ''<head>\<newline>'' @
     ''  <meta charset="UTF-8">\<newline>'' @
     ''  <meta name="viewport" content="width=device-width, initial-scale=1.0">\<newline>'' @
     ''  <title>ASH Security Report</title>__CSS_SECTION__\<newline>'' @
     ''</head>\<newline>'' @
     ''<body>\<newline>'' @
     ''  <div id="app"></div>\<newline>'' @
     ''  <script id="ash-data" type="application/json">__ASH_DATA__</script>\<newline>'' @
     ''  <script>\<newline>'' @
     ''__JS_CONTENT__\<newline>'' @
     ''  </script>\<newline>'' @
     ''</body>\<newline>'' @
     ''</html>''\<close>

subsection \<open>Paths\<close>

text \<open>
  \<^verbatim>\<open>path.join\<close> of Node on a POSIX system: the non-empty arguments joined by a slash,
  then normalised. Normalising splits the path at its slashes, drops empty and
  \<^verbatim>\<open>.\<close> segments, lets \<^verbatim>\<open>..\<close> remove the segment before it (above the start of a
  relative path it is kept, above the root it is dropped), and keeps a leading and a
  trailing slash.
\<close>

fun split_path :: "string \<Rightarrow> string list" where
  "split_path [] = [[]]"
| "split_path (c # s) =
     (if c = CHR ''/'' then [] # split_path s
      else (case split_path s of [] \<Rightarrow> [[c]] | seg # segs \<Rightarrow> (c # seg) # segs))"

fun normalizeString :: "bool \<Rightarrow> string list \<Rightarrow> string list \<Rightarrow> string list" where
  "normalizeString allowAboveRoot res [] = res"
| "normalizeString allowAboveRoot res (seg # segs) =
     (if seg = [] \<or> seg = ''.'' then normalizeString allowAboveRoot res segs
      else if seg = ''..'' then
        (if res \<noteq> [] \<and> last res \<noteq> ''..'' then
           normalizeString allowAboveRoot (butlast res) segs
         else if allowAboveRoot then normalizeString allowAboveRoot (res @ [''..'']) segs
         else normalizeString allowAboveRoot res segs)
      else normalizeString allowAboveRoot (res @ [seg]) segs)"

fun join_slash :: "string list \<Rightarrow> string" where
  "join_slash [] = []"
| "join_slash [seg] = seg"
| "join_slash (seg # segs) = seg @ ''/'' @ join_slash segs"

definition posix_normalize :: "string \<Rightarrow> string" where
  "posix_normalize path =
     (if path = [] then ''.''
      else
        (let isAbsolute = (hd path = CHR ''/'');
             trailingSeparator = (last path = CHR ''/'');
             p = join_slash (normalizeString (\<not> isAbsolute) [] (split_path path))
         in if p = [] then (if isAbsolute then ''/'' else if trailingSeparator then ''./'' else ''.'')
            else (if isAbsolute then ''/'' else []) @ p @
                 (if trailingSeparator then ''/'' else [])))"

definition path_join :: "string list \<Rightarrow> string" where
  "path_join args =
     (let joined = join_slash (filter (\<lambda>arg. arg \<noteq> []) args)
      in if joined = [] then ''.'' else posix_normalize joined)"

subsection \<open>The file system and the script\<close>

text \<open>
  The script talks to the file system through three calls of Node. The platform answers
  them: \<^verbatim>\<open>readdirSync\<close> and \<^verbatim>\<open>readFileSync(_, 'utf-8')\<close> give a result or throw
  (\<open>None\<close>); \<^verbatim>\<open>writeFileSync\<close> returns (\<open>True\<close>) or throws. What a write that throws
  leaves at the path (nothing, an empty or a partial file) is the platform's and is not
  modelled: a run is described by its exit status and by the calls it made, in order,
  each write with its path and the whole text handed over. The script reads before it
  writes and writes once. Console output is not modelled.
\<close>

record Platform =
  readdirSync :: "string \<rightharpoonup> string list"
  readFileSync :: "string \<rightharpoonup> string"
  writeFileSync :: "string \<Rightarrow> string \<Rightarrow> bool"

datatype FsCall = Readdir string | ReadFile string | WriteFile string string

datatype Error =
    ReaddirFailed string
  | MissingJavaScriptBundle "string list"
  | ReadFailed string
  | WriteFailed string

text \<open>A function of the script throws or returns, after the calls it made.\<close>

datatype 'a Result = Throws Error "FsCall list" | Returns 'a "FsCall list"

record Assets =
  css :: "string option"
  js :: string

text \<open>
  \<^verbatim>\<open>join(process.cwd(), 'dist', 'assets')\<close> is \<open>assetsDir cwd\<close>.
  \<^verbatim>\<open>files.find(file => file.endsWith('.css'))\<close> is \<^const>\<open>find\<close>: the first match in
  the listing's order, or \<^verbatim>\<open>undefined\<close>. A name that ends with \<^verbatim>\<open>.js\<close> is not the
  empty string, so \<^verbatim>\<open>!jsFile\<close> holds exactly when no name matched.
\<close>

definition assetsDir :: "string \<Rightarrow> string" where
  "assetsDir cwd = path_join [cwd, ''dist'', ''assets'']"

definition findAssetFiles :: "Platform \<Rightarrow> string \<Rightarrow> Assets Result" where
  "findAssetFiles p cwd =
     (let assetsDir = assetsDir cwd in
      case readdirSync p assetsDir of
        None \<Rightarrow> Throws (ReaddirFailed assetsDir) [Readdir assetsDir]
      | Some files \<Rightarrow>
          (let cssFile = find (\<lambda>file. endsWith file ''.css'') files;
               jsFile = find (\<lambda>file. endsWith file ''.js'') files
           in case jsFile of
                None \<Rightarrow> Throws (MissingJavaScriptBundle files) [Readdir assetsDir]
              | Some j \<Rightarrow>
                  Returns \<lparr>css = map_option (\<lambda>c. path_join [assetsDir, c]) cssFile,
                           js = path_join [assetsDir, j]\<rparr>
                    [Readdir assetsDir]))"

text \<open>The style block built around the CSS file's text (a template literal).\<close>

definition cssSection_of :: "string \<Rightarrow> string" where
  "cssSection_of cssContent = ''\<newline>  <style>\<newline>'' @ cssContent @ ''\<newline>  </style>''"

text \<open>
  \<^verbatim>\<open>template.replace('__ASH_DATA__', ashData).replace('__CSS_SECTION__',
  cssSection).replace('__JS_CONTENT__', jsContent)\<close>
\<close>

definition fill_template :: "string \<Rightarrow> string \<Rightarrow> string \<Rightarrow> string" where
  "fill_template ashData cssSection jsContent =
     String_replace
       (String_replace
          (String_replace template ''__ASH_DATA__'' ashData)
          ''__CSS_SECTION__'' cssSection)
       ''__JS_CONTENT__'' jsContent"

text \<open>
  \<^verbatim>\<open>generateReport\<close>: the asset lookup, the three reads in the order of the source
  (data, script, style sheet when there is one), the substitution, and last the one
  write.
\<close>

definition generateReport :: "Platform \<Rightarrow> string \<Rightarrow> string \<Rightarrow> string \<Rightarrow> unit Result" where
  "generateReport p cwd ashDataPath outputPath =
     (case findAssetFiles p cwd of
        Throws e t \<Rightarrow> Throws e t
      | Returns assets t \<Rightarrow>
     (case readFileSync p ashDataPath of
        None \<Rightarrow> Throws (ReadFailed ashDataPath) (t @ [ReadFile ashDataPath])
      | Some ashData \<Rightarrow>
     (case readFileSync p (js assets) of
        None \<Rightarrow> Throws (ReadFailed (js assets)) (t @ [ReadFile ashDataPath, ReadFile (js assets)])
      | Some jsContent \<Rightarrow>
     (case (case css assets of
              None \<Rightarrow> Returns [] (t @ [ReadFile ashDataPath, ReadFile (js assets)])
            | Some cssPath \<Rightarrow>
                (case readFileSync p cssPath of
                   None \<Rightarrow>
                     Throws (ReadFailed cssPath)
                       (t @ [ReadFile ashDataPath, ReadFile (js assets), ReadFile cssPath])
                 | Some cssContent \<Rightarrow>
                     Returns (cssSection_of cssContent)
                       (t @ [ReadFile ashDataPath, ReadFile (js assets), ReadFile cssPath]))) of
        Throws e t' \<Rightarrow> Throws e t'
      | Returns cssSection t' \<Rightarrow>
          (let html = fill_template ashData cssSection jsContent
           in if writeFileSync p outputPath html
              then Returns () (t' @ [WriteFile outputPath html])
              else Throws (WriteFailed outputPath) (t' @ [WriteFile outputPath html]))))))"

text \<open>
  The top level of the script: \<open>argv\<close> is \<^verbatim>\<open>process.argv\<close> (the interpreter, the
  script, then the arguments), \<open>cwd\<close> is \<^verbatim>\<open>process.cwd()\<close>. A run ends with an exit
  status: 1 from either \<^verbatim>\<open>process.exit(1)\<close>, 0 when the script runs to its end.
  \<^verbatim>\<open>process.argv[3] || d\<close> is \<open>d\<close> when the argument is missing or the empty string.
\<close>

record Run =
  exitCode :: nat
  calls :: "FsCall list"

definition main :: "Platform \<Rightarrow> string \<Rightarrow> string list \<Rightarrow> Run" where
  "main p cwd argv =
     (if length argv < 3 then \<lparr>exitCode = 1, calls = []\<rparr>
      else
        (let ashDataPath = argv ! 2;
             outputPath =
               (if 3 < length argv \<and> argv ! 3 \<noteq> [] then argv ! 3
                else ''ash-security-report.html'')
         in case generateReport p cwd ashDataPath outputPath of
              Throws error t \<Rightarrow> \<lparr>exitCode = 1, calls = t\<rparr>
            | Returns u t \<Rightarrow> \<lparr>exitCode = 0, calls = t\<rparr>))"

subsection \<open>The template, cut at its placeholders\<close>

text \<open>
  The four pieces of the template around its three placeholders, in the order of the
  document: the style placeholder comes first (in the head), then the data placeholder,
  then the script placeholder.
\<close>

definition template_head :: string where
  \<open>template_head =
     ''<!DOCTYPE html>\<newline>'' @
     ''<html lang="en">\<newline>'' @
     ''<head>\<newline>'' @
     ''  <meta charset="UTF-8">\<newline>'' @
     ''  <meta name="viewport" content="width=device-width, initial-scale=1.0">\<newline>'' @
     ''  <title>ASH Security Report</title>''\<close>

definition template_body :: string where
  \<open>template_body =
     ''\<newline>'' @
     ''</head>\<newline>'' @
     ''<body>\<newline>'' @
     ''  <div id="app"></div>\<newline>'' @
     ''  <script id="ash-data" type="application/json">''\<close>

definition template_script :: string where
  \<open>template_script = ''</script>\<newline>'' @ ''  <script>\<newline>''\<close>

definition template_tail :: string where
  \<open>template_tail = ''\<newline>'' @ ''  </script>\<newline>'' @ ''</body>\<newline>'' @ ''</html>''\<close>

text \<open>
  The text the first two substitutions put in place of the data placeholder and of the
  style placeholder: the replacement texts with their dollar patterns expanded.
\<close>

definition data_region :: "string \<Rightarrow> string" where
  "data_region ashData =
     GetSubstitution ''__ASH_DATA__''
       (template_head @ ''__CSS_SECTION__'' @ template_body)
       (template_script @ ''__JS_CONTENT__'' @ template_tail) ashData"

definition css_region :: "string \<Rightarrow> string \<Rightarrow> string" where
  "css_region ashData cssSection =
     GetSubstitution ''__CSS_SECTION__'' template_head
       (template_body @ data_region ashData @ template_script @ ''__JS_CONTENT__'' @ template_tail)
       cssSection"

section \<open>Example inputs\<close>

text \<open>A finding with the severity \<^verbatim>\<open>INFO\<close>, which is none of the four levels.\<close>

abbreviation unknown_finding :: Finding where
  "unknown_finding \<equiv>
     \<lparr>tool = ''Grype'', severity = ''INFO'', message = ''note'', location = ''package.json'',
      description = None, recommendation = None, lineNumber = None, pattern = None,
      cve = None, score = None\<rparr>"

text \<open>
  A platform for the assembler: the assets directory of \<^verbatim>\<open>/repo\<close> with the given
  listing, the sample data file and the asset files readable, every write succeeding.
\<close>

abbreviation scenario_platform :: "string list \<Rightarrow> Platform" where
  "scenario_platform files \<equiv>
     \<lparr>readdirSync = [''/repo/dist/assets'' \<mapsto> files],
      readFileSync = [''sample-ash-data.json'' \<mapsto> ''{}'',
                      ''/repo/dist/assets/index-abc123.js'' \<mapsto> ''app()'',
                      ''/repo/dist/assets/index-abc123.css'' \<mapsto> ''body{}'',
                      ''/repo/dist/assets/vendor-def456.js'' \<mapsto> ''lib()''],
      writeFileSync = (\<lambda>path text. True)\<rparr>"

section \<open>Aggregation: counts\<close>

lemma or_zero_simps [simp]: "or_zero None = 0" "or_zero (Some n) = n"
  by (simp_all add: or_zero_def)

lemma foldl_count_step:
  "or_zero (foldl count_step acc fs k) =
     or_zero (acc k) + length (filter (\<lambda>f. severity f = k) fs)"
proof (induction fs arbitrary: acc)
  case Nil
  show ?case by simp
next
  case (Cons f fs)
  show ?case
    unfolding foldl_Cons Cons.IH by (simp add: count_step_def)
qed

lemma counts_eq: "or_zero (counts fs k) = length (filter (\<lambda>f. severity f = k) fs)"
  by (simp add: counts_def foldl_count_step)

lemma SummaryCards_eq:
  "SummaryCards fs =
     map (\<lambda>k. (k, length (filter (\<lambda>f. severity f = k) fs)))
       [''CRITICAL'', ''HIGH'', ''MEDIUM'', ''LOW'']"
  by (simp add: SummaryCards_def severityConfig_def counts_eq)

lemma known_sum:
  "length (filter (\<lambda>f. severity f = ''CRITICAL'') fs) +
   (length (filter (\<lambda>f. severity f = ''HIGH'') fs) +
    (length (filter (\<lambda>f. severity f = ''MEDIUM'') fs) +
     length (filter (\<lambda>f. severity f = ''LOW'') fs))) =
   length (filter (\<lambda>f. severity f \<in> {''CRITICAL'', ''HIGH'', ''MEDIUM'', ''LOW''}) fs)"
  by (induction fs) auto

lemma severityKeys_eq: "severityKeys = [''CRITICAL'', ''HIGH'', ''MEDIUM'', ''LOW'']"
  by (simp add: severityKeys_def severityConfig_def)

text \<open>
  C4. For every findings list the cards give one count for each of the four severities,
  in the table's order and none omitted; each count is the number of findings whose
  severity equals that key (0 when there is none); the four counts add up to the number
  of findings with a known severity, which is at most the length of the list.
\<close>

theorem C4_severity_counts:
  "map fst (SummaryCards fs) = [''CRITICAL'', ''HIGH'', ''MEDIUM'', ''LOW''] \<and>
   SummaryCards fs =
     map (\<lambda>k. (k, length (filter (\<lambda>f. severity f = k) fs)))
       [''CRITICAL'', ''HIGH'', ''MEDIUM'', ''LOW''] \<and>
   sum_list (map snd (SummaryCards fs)) =
     length (filter (\<lambda>f. severity f \<in> set severityKeys) fs) \<and>
   sum_list (map snd (SummaryCards fs)) \<le> length fs"
proof -
  have s: "sum_list (map snd (SummaryCards fs)) =
      length (filter (\<lambda>f. severity f \<in> set severityKeys) fs)"
    unfolding SummaryCards_eq severityKeys_eq by (simp add: known_sum)
  have "length (filter (\<lambda>f. severity f \<in> set severityKeys) fs) \<le> length fs"
    by (rule length_filter_le)
  with s show ?thesis
    by (simp add: SummaryCards_eq)
qed

section \<open>Insertion-ordered sets\<close>

lemma set_foldl_Set_add: "set (foldl Set_add acc xs) = set acc \<union> set xs"
  by (induction xs arbitrary: acc) (auto simp: Set_add_def)

lemma distinct_foldl_Set_add: "distinct acc \<Longrightarrow> distinct (foldl Set_add acc xs)"
  by (induction xs arbitrary: acc) (auto simp: Set_add_def)

lemma new_Set_snoc: "new_Set (xs @ [x]) = Set_add (new_Set xs) x"
  by (simp add: new_Set_def)

lemma set_new_Set: "set (new_Set xs) = set xs"
  by (simp add: new_Set_def set_foldl_Set_add)

lemma new_Set_first_occurrences:
  "new_Set ts = map ((!) ts) (filter (\<lambda>i. ts ! i \<notin> set (take i ts)) [0..<length ts])"
proof (induction ts rule: rev_induct)
  case Nil
  show ?case by (simp add: new_Set_def)
next
  case (snoc t ts)
  have f: "filter (\<lambda>i. (ts @ [t]) ! i \<notin> set (take i (ts @ [t]))) [0..<length ts] =
           filter (\<lambda>i. ts ! i \<notin> set (take i ts)) [0..<length ts]"
    by (rule filter_cong) (auto simp: nth_append)
  have m: "map ((!) (ts @ [t])) (filter (\<lambda>i. ts ! i \<notin> set (take i ts)) [0..<length ts]) =
           map ((!) ts) (filter (\<lambda>i. ts ! i \<notin> set (take i ts)) [0..<length ts])"
    by (rule map_cong) (auto simp: nth_append)
  have l: "filter (\<lambda>i. (ts @ [t]) ! i \<notin> set (take i (ts @ [t]))) [length ts] =
           (if t \<in> set ts then [] else [length ts])"
    by simp
  have b: "map ((!) (ts @ [t]))
          (filter (\<lambda>i. (ts @ [t]) ! i \<notin> set (take i (ts @ [t]))) ([0..<length ts] @ [length ts])) =
        new_Set ts @ (if t \<in> set ts then [] else [t])"
    unfolding filter_append map_append f m l snoc.IH [symmetric] by simp
  have a: "[0..<length (ts @ [t])] = [0..<length ts] @ [length ts]"
    by simp
  have c: "new_Set (ts @ [t]) = new_Set ts @ (if t \<in> set ts then [] else [t])"
    by (simp add: new_Set_snoc Set_add_def set_new_Set)
  show ?case
    unfolding a b c by (rule refl)
qed

section \<open>The tool tabs\<close>

text \<open>
  C5. For every findings list the tool tabs hold no tool twice, hold exactly the tools of
  the list, and list them in the order of their first occurrence: the tabs are the
  entries of the tool column at the positions where a tool appears for the first time,
  in the order of the list (neither alphabetical nor by severity).
\<close>

theorem C5_distinct_tools:
  "distinct (tools fs) \<and>
   set (tools fs) = set (map tool fs) \<and>
   tools fs =
     map ((!) (map tool fs))
       (filter (\<lambda>i. map tool fs ! i \<notin> set (take i (map tool fs))) [0..<length fs])"
proof -
  have "distinct (tools fs)"
    by (simp add: tools_def new_Set_def distinct_foldl_Set_add)
  moreover have "set (tools fs) = set (map tool fs)"
    unfolding tools_def by (rule set_new_Set)
  moreover have "tools fs =
     map ((!) (map tool fs))
       (filter (\<lambda>i. map tool fs ! i \<notin> set (take i (map tool fs))) [0..<length fs])"
    unfolding tools_def using new_Set_first_occurrences [of "map tool fs"] by simp
  ultimately show ?thesis by blast
qed

section \<open>The filter\<close>

text \<open>
  C3. For every findings list, severity selection \<open>S\<close> and tool filter \<open>t\<close>, the
  filtered list is a subsequence of the input (same relative order), and a finding is in
  it if and only if it is in the input, its severity is in \<open>S\<close>, and \<open>t\<close> is the
  sentinel \<^verbatim>\<open>all\<close> or equals the finding's tool exactly; the two tests are joined
  by "and".
\<close>

theorem C3_filter:
  "subseq (filteredFindings fs t S) fs \<and>
   (\<forall>f. f \<in> set (filteredFindings fs t S) \<longleftrightarrow>
      f \<in> set fs \<and> severity f \<in> set S \<and> (t = ''all'' \<or> tool f = t))"
  by (auto simp: filteredFindings_def)

text \<open>
  C8. On the empty findings list all four counts are 0, there is no tool tab and every
  filter gives the empty list; on any findings list the empty severity selection gives
  the empty list.
\<close>

theorem C8_boundaries:
  "SummaryCards [] = [(''CRITICAL'', 0), (''HIGH'', 0), (''MEDIUM'', 0), (''LOW'', 0)] \<and>
   tools [] = [] \<and>
   (\<forall>t S. filteredFindings [] t S = []) \<and>
   (\<forall>fs t. filteredFindings fs t [] = [])"
  by (simp add: SummaryCards_eq tools_def new_Set_def filteredFindings_def)

section \<open>The severity table\<close>

lemma step_keeps:
  "ui_config (step ui a) = ui_config ui \<and> ui_findings (step ui a) = ui_findings ui"
  by (cases a) simp_all

lemma steps_keep:
  "ui_config (foldl step ui acts) = ui_config ui \<and>
   ui_findings (foldl step ui acts) = ui_findings ui"
proof (induction acts arbitrary: ui)
  case Nil
  show ?case by simp
next
  case (Cons a acts)
  show ?case
    unfolding foldl_Cons using Cons.IH [of "step ui a"] step_keeps [of ui a] by simp
qed

lemma steps_reachable: "reachableFilter (ui_severityFilter (foldl step (initialUI fs) acts))"
proof (induction acts rule: rev_induct)
  case Nil
  show ?case by (simp add: initialUI_def reachableFilter.init)
next
  case (snoc a acts)
  let ?ui = "foldl step (initialUI fs) acts"
  have c: "ui_config ?ui = severityConfig"
    using steps_keep [of "initialUI fs" acts] by (simp add: initialUI_def)
  show ?case
  proof (cases a)
    case (ClickSeverity k)
    show ?thesis
    proof (cases "k \<in> set (map fst (ui_config ?ui))")
      case True
      then have "k \<in> set severityKeys"
        unfolding c severityKeys_def .
      from reachableFilter.click [OF snoc.IH this] ClickSeverity True show ?thesis
        by simp
    next
      case False
      with snoc.IH ClickSeverity show ?thesis by simp
    qed
  qed (use snoc.IH in simp_all)
qed


section \<open>Findings with an unknown severity\<close>

lemma reachableFilter_known: "reachableFilter S \<Longrightarrow> set S \<subseteq> set severityKeys"
proof (induction rule: reachableFilter.induct)
  case init
  show ?case by (simp add: initialSeverityFilter_def severityKeys_eq)
next
  case (click prev k)
  then show ?case by (auto simp: toggleSeverity_def)
qed

lemma filter_severity_removeAll:
  "severity f \<noteq> k \<Longrightarrow>
   filter (\<lambda>g. severity g = k) (removeAll f fs) = filter (\<lambda>g. severity g = k) fs"
  by (induction fs) auto

lemma SummaryCards_removeAll:
  assumes "severity f \<notin> set severityKeys"
  shows "SummaryCards (removeAll f fs) = SummaryCards fs"
proof -
  from assms have "severity f \<noteq> ''CRITICAL''" "severity f \<noteq> ''HIGH''"
    "severity f \<noteq> ''MEDIUM''" "severity f \<noteq> ''LOW''"
    by (auto simp: severityKeys_eq)
  then show ?thesis
    by (simp add: SummaryCards_eq filter_severity_removeAll)
qed

text \<open>
  C7 (amended). A finding whose severity is none of the four keys is left out of all four
  counts (the cards are those of the list without it), and computing them raises nothing;
  the finding stays in the findings list and its tool has a tab. It is not shown in the
  filtered table, whatever the tab: the severity selection starts with the four keys and
  the toggle buttons only add or remove keys of the table, so no selection the component
  reaches contains the finding's severity.
\<close>

theorem C7_unknown_severity:
  assumes "f \<in> set fs" and "severity f \<notin> set severityKeys"
  shows "SummaryCards fs = SummaryCards (removeAll f fs) \<and>
         length (removeAll f fs) < length fs \<and>
         tool f \<in> set (tools fs) \<and>
         (\<forall>S t. reachableFilter S \<longrightarrow> f \<notin> set (filteredFindings fs t S))"
proof -
  have "SummaryCards fs = SummaryCards (removeAll f fs)"
    using assms(2) by (simp add: SummaryCards_removeAll)
  moreover have "length (removeAll f fs) < length fs"
    using assms(1) by (rule length_removeAll_less)
  moreover have "tool f \<in> set (tools fs)"
    using assms(1) by (simp add: tools_def set_new_Set)
  moreover have "f \<notin> set (filteredFindings fs t S)" if "reachableFilter S" for S t
    using reachableFilter_known [OF that] assms(2) by (auto simp: filteredFindings_def)
  ultimately show ?thesis by blast
qed

theorem C7_unknown_severity_witness:
  "unknown_finding \<in> set [unknown_finding] \<and>
   severity unknown_finding \<notin> set severityKeys \<and>
   SummaryCards [unknown_finding] = SummaryCards [] \<and>
   tool unknown_finding \<in> set (tools [unknown_finding]) \<and>
   unknown_finding \<notin> set (filteredFindings [unknown_finding] ''all'' initialSeverityFilter)"
proof -
  have h: "unknown_finding \<in> set [unknown_finding]" by simp
  have k: "severity unknown_finding \<notin> set severityKeys" by (simp add: severityKeys_eq)
  from C7_unknown_severity [OF h k] reachableFilter.init h k show ?thesis
    by simp
qed

text \<open>
  C7 as stated fails: a list holding one finding of severity \<^verbatim>\<open>INFO\<close> has an empty
  filtered view under the initial selection, on the "all" tab and on the finding's own
  tab, and after a click on a toggle button.
\<close>

theorem C7_counterexample:
  "filteredFindings [unknown_finding] ''all'' initialSeverityFilter = [] \<and>
   filteredFindings [unknown_finding] ''Grype'' initialSeverityFilter = [] \<and>
   filteredFindings [unknown_finding] ''all'' (toggleSeverity initialSeverityFilter ''LOW'') = []"
  by (simp add: filteredFindings_def initialSeverityFilter_def toggleSeverity_def)

section \<open>Startup\<close>

lemma App_render_parsed_examples:
  "App_render \<lparr>data = Parsed JNull, loading = False, effects = []\<rparr> = NoDataAvailable"
  "App_render \<lparr>data = Parsed (JNumber 0), loading = False, effects = []\<rparr> = NoDataAvailable"
  "App_render \<lparr>data = Parsed (JBool False), loading = False, effects = []\<rparr> = NoDataAvailable"
  "App_render \<lparr>data = Parsed (JObject []), loading = False, effects = []\<rparr> = RenderThrows"
  "App_render \<lparr>data = Parsed (JString ''report''), loading = False, effects = []\<rparr> = RenderThrows"
  "App_render \<lparr>data = Parsed (JObject [(''findings'', JNumber 5)]), loading = False, effects = []\<rparr> =
     ReportOfNonReport (JObject [(''findings'', JNumber 5)])"
  "App_render
     \<lparr>data = Parsed (JObject [(''findings'', JArray []),
        (''metadata'', JObject [(''scanDate'', JString ''2025-01-15T10:30:00Z''),
           (''totalFindings'', JNumber 0), (''tools'', JArray [])])]),
      loading = False, effects = []\<rparr> =
     ReportPage \<lparr>findings = [],
       metadata = \<lparr>scanDate = ''2025-01-15T10:30:00Z'', totalFindings = 0, scan_tools = [],
         duration = None, version = None\<rparr>\<rparr>"
  by (simp_all add: App_render_def required_def optional_def)

lemma App_useEffect_parsed:
  "s \<noteq> [] \<Longrightarrow> p s = Some v \<Longrightarrow>
   App_useEffect p now (Some s) initialAppState = \<lparr>data = Parsed v, loading = False, effects = []\<rparr>"
  by (simp add: App_useEffect_def initialAppState_def)

text \<open>
  C2 (amended). When the page has no embedded block, or the block is empty, the
  application falls back to the built-in sample report and shows it, with no effect on
  the outside. When the block has text that \<^verbatim>\<open>JSON.parse\<close> rejects, the error is
  logged, the data stays \<^verbatim>\<open>null\<close> and the application shows "No Data Available", not
  the sample report. Neither case makes a network request.
\<close>

theorem C2_startup:
  "(tc = None \<or> tc = Some [] \<longrightarrow>
      App_useEffect p now tc initialAppState =
        \<lparr>data = Sample (sampleData now), loading = False, effects = []\<rparr> \<and>
      App_render (App_useEffect p now tc initialAppState) = ReportPage (sampleData now)) \<and>
   (\<forall>s. tc = Some s \<and> s \<noteq> [] \<and> p s = None \<longrightarrow>
      App_useEffect p now tc initialAppState =
        \<lparr>data = Null, loading = False,
         effects = [ConsoleError ''Failed to parse ASH data:'']\<rparr> \<and>
      App_render (App_useEffect p now tc initialAppState) = NoDataAvailable)"
  by (auto simp: App_useEffect_def App_render_def initialAppState_def)

theorem C2_startup_witness:
  "App_useEffect (\<lambda>s. None) ''2025-01-15T10:30:00Z'' None initialAppState =
     \<lparr>data = Sample (sampleData ''2025-01-15T10:30:00Z''), loading = False, effects = []\<rparr> \<and>
   App_render (App_useEffect (\<lambda>s. None) ''2025-01-15T10:30:00Z'' None initialAppState) =
     ReportPage (sampleData ''2025-01-15T10:30:00Z'') \<and>
   App_useEffect (\<lambda>s. None) ''2025-01-15T10:30:00Z'' (Some ''{ invalid json'') initialAppState =
     \<lparr>data = Null, loading = False, effects = [ConsoleError ''Failed to parse ASH data:'']\<rparr> \<and>
   App_render (App_useEffect (\<lambda>s. None) ''2025-01-15T10:30:00Z'' (Some ''{ invalid json'') initialAppState) =
     NoDataAvailable"
proof -
  have a: "(None :: string option) = None \<or> (None :: string option) = Some []"
    by simp
  have b: "Some ''{ invalid json'' = Some ''{ invalid json'' \<and> ''{ invalid json'' \<noteq> [] \<and>
      (\<lambda>s :: string. None :: JSValue option) ''{ invalid json'' = None"
    by simp
  from C2_startup [of None "\<lambda>s. None" "''2025-01-15T10:30:00Z''"] a
  have 1: "App_useEffect (\<lambda>s. None) ''2025-01-15T10:30:00Z'' None initialAppState =
        \<lparr>data = Sample (sampleData ''2025-01-15T10:30:00Z''), loading = False, effects = []\<rparr> \<and>
      App_render (App_useEffect (\<lambda>s. None) ''2025-01-15T10:30:00Z'' None initialAppState) =
        ReportPage (sampleData ''2025-01-15T10:30:00Z'')"
    by blast
  from C2_startup [of "Some ''{ invalid json''" "\<lambda>s. None" "''2025-01-15T10:30:00Z''"] b
  have 2: "App_useEffect (\<lambda>s. None) ''2025-01-15T10:30:00Z'' (Some ''{ invalid json'') initialAppState =
        \<lparr>data = Null, loading = False, effects = [ConsoleError ''Failed to parse ASH data:'']\<rparr> \<and>
      App_render (App_useEffect (\<lambda>s. None) ''2025-01-15T10:30:00Z'' (Some ''{ invalid json'') initialAppState) =
        NoDataAvailable"
    by blast
  from 1 2 show ?thesis by blast
qed

text \<open>
  C2 as stated fails: with an embedded block that does not parse, the page is "No Data
  Available" and not the sample report.
\<close>

theorem C2_counterexample:
  "App_render (App_useEffect (\<lambda>s. None) ''2025-01-15T10:30:00Z'' (Some ''{ invalid json'') initialAppState)
     = NoDataAvailable \<and>
   App_render (App_useEffect (\<lambda>s. None) ''2025-01-15T10:30:00Z'' (Some ''{ invalid json'') initialAppState)
     \<noteq> ReportPage (sampleData ''2025-01-15T10:30:00Z'')"
  by (simp add: App_useEffect_def App_render_def initialAppState_def)

section \<open>The assembler's command line and failures\<close>

lemma path_join_examples:
  "path_join [''/repo'', ''dist'', ''assets''] = ''/repo/dist/assets''"
  "path_join [''/'', ''dist'', ''assets''] = ''/dist/assets''"
  "path_join [''/repo/'', ''dist'', ''assets''] = ''/repo/dist/assets''"
  "path_join [''/repo/dist/assets'', ''index-abc123.js''] = ''/repo/dist/assets/index-abc123.js''"
  "path_join [''a'', ''..'', ''..'', ''b''] = ''../b''"
  "path_join [''/a'', ''..'', ''..'', ''b''] = ''/b''"
  "path_join [''./a'', ''b/''] = ''a/b/''"
  "path_join ['''', ''''] = ''.''"
  by (simp_all add: path_join_def posix_normalize_def)

lemma scenario_paths:
  "assetsDir ''/repo'' = ''/repo/dist/assets''"
  "path_join [''/repo/dist/assets'', ''index-abc123.js''] = ''/repo/dist/assets/index-abc123.js''"
  "path_join [''/repo/dist/assets'', ''index-abc123.css''] = ''/repo/dist/assets/index-abc123.css''"
  "path_join [''/repo/dist/assets'', ''vendor-def456.js''] = ''/repo/dist/assets/vendor-def456.js''"
  by (simp_all add: assetsDir_def path_join_def posix_normalize_def)

lemma findAssetFiles_no_js:
  assumes "case readdirSync p (assetsDir cwd) of None \<Rightarrow> True
    | Some files \<Rightarrow> find (\<lambda>file. endsWith file ''.js'') files = None"
  shows "\<exists>e. findAssetFiles p cwd = Throws e [Readdir (assetsDir cwd)]"
  using assms by (auto simp: findAssetFiles_def Let_def split: option.splits)

lemma findAssetFiles_first:
  assumes "readdirSync p (assetsDir cwd) = Some files"
    and "find (\<lambda>file. endsWith file ''.js'') files = Some j"
  shows "findAssetFiles p cwd =
      Returns \<lparr>css = map_option (\<lambda>c. path_join [assetsDir cwd, c])
                       (find (\<lambda>file. endsWith file ''.css'') files),
               js = path_join [assetsDir cwd, j]\<rparr>
        [Readdir (assetsDir cwd)]"
  using assms by (simp add: findAssetFiles_def Let_def)

text \<open>A run of \<^verbatim>\<open>generateReport\<close> in which every call succeeds.\<close>

lemma generateReport_success:
  assumes "readdirSync p (assetsDir cwd) = Some files"
    and "find (\<lambda>file. endsWith file ''.js'') files = Some j"
    and "readFileSync p ashDataPath = Some ashData"
    and "readFileSync p (path_join [assetsDir cwd, j]) = Some jsContent"
    and "case find (\<lambda>file. endsWith file ''.css'') files of
           None \<Rightarrow> cssSection = [] \<and> cssReads = []
         | Some c \<Rightarrow>
             (\<exists>cssContent. readFileSync p (path_join [assetsDir cwd, c]) = Some cssContent \<and>
                cssSection = cssSection_of cssContent) \<and>
             cssReads = [ReadFile (path_join [assetsDir cwd, c])]"
    and "writeFileSync p outputPath (fill_template ashData cssSection jsContent)"
  shows "generateReport p cwd ashDataPath outputPath =
      Returns ()
        ([Readdir (assetsDir cwd), ReadFile ashDataPath, ReadFile (path_join [assetsDir cwd, j])] @
         cssReads @ [WriteFile outputPath (fill_template ashData cssSection jsContent)])"
proof (cases "find (\<lambda>file. endsWith file ''.css'') files")
  case None
  with assms show ?thesis
    by (simp add: generateReport_def findAssetFiles_first [OF assms(1,2)])
next
  case (Some c)
  with assms(5) obtain cssContent where
    "readFileSync p (path_join [assetsDir cwd, c]) = Some cssContent"
    "cssSection = cssSection_of cssContent" "cssReads = [ReadFile (path_join [assetsDir cwd, c])]"
    by auto
  with Some assms show ?thesis
    by (simp add: generateReport_def findAssetFiles_first [OF assms(1,2)])
qed

text \<open>
  C6 (amended). The input path is required: a run with no positional argument exits
  with status 1 without a single call to the file system, so nothing is read and nothing
  is written. The output path defaults to \<^verbatim>\<open>ash-security-report.html\<close>: a run given
  only the input path is the run with that output path, and when the assets and the
  input can be read and the write succeeds it exits with status 0 after writing the
  filled template to \<^verbatim>\<open>ash-security-report.html\<close>.
\<close>

theorem C6_arguments:
  "(length argv < 3 \<longrightarrow> main p cwd argv = \<lparr>exitCode = 1, calls = []\<rparr>) \<and>
   (length argv = 3 \<longrightarrow>
      main p cwd argv = main p cwd (argv @ [''ash-security-report.html''])) \<and>
   (\<forall>files j ashData jsContent cssSection cssReads.
      length argv = 3 \<and>
      readdirSync p (assetsDir cwd) = Some files \<and>
      find (\<lambda>file. endsWith file ''.js'') files = Some j \<and>
      readFileSync p (argv ! 2) = Some ashData \<and>
      readFileSync p (path_join [assetsDir cwd, j]) = Some jsContent \<and>
      (case find (\<lambda>file. endsWith file ''.css'') files of
         None \<Rightarrow> cssSection = [] \<and> cssReads = []
       | Some c \<Rightarrow>
           (\<exists>cssContent. readFileSync p (path_join [assetsDir cwd, c]) = Some cssContent \<and>
              cssSection = cssSection_of cssContent) \<and>
           cssReads = [ReadFile (path_join [assetsDir cwd, c])]) \<and>
      writeFileSync p ''ash-security-report.html'' (fill_template ashData cssSection jsContent) \<longrightarrow>
      main p cwd argv =
        \<lparr>exitCode = 0,
         calls = [Readdir (assetsDir cwd), ReadFile (argv ! 2),
                  ReadFile (path_join [assetsDir cwd, j])] @ cssReads @
                 [WriteFile ''ash-security-report.html''
                    (fill_template ashData cssSection jsContent)]\<rparr>)"
proof (intro conjI impI allI)
  assume "length argv < 3"
  then show "main p cwd argv = \<lparr>exitCode = 1, calls = []\<rparr>"
    by (simp add: main_def)
next
  assume "length argv = 3"
  then show "main p cwd argv = main p cwd (argv @ [''ash-security-report.html''])"
    by (simp add: main_def Let_def nth_append)
next
  fix files j ashData jsContent cssSection cssReads
  assume a: "length argv = 3 \<and>
      readdirSync p (assetsDir cwd) = Some files \<and>
      find (\<lambda>file. endsWith file ''.js'') files = Some j \<and>
      readFileSync p (argv ! 2) = Some ashData \<and>
      readFileSync p (path_join [assetsDir cwd, j]) = Some jsContent \<and>
      (case find (\<lambda>file. endsWith file ''.css'') files of
         None \<Rightarrow> cssSection = [] \<and> cssReads = []
       | Some c \<Rightarrow>
           (\<exists>cssContent. readFileSync p (path_join [assetsDir cwd, c]) = Some cssContent \<and>
              cssSection = cssSection_of cssContent) \<and>
           cssReads = [ReadFile (path_join [assetsDir cwd, c])]) \<and>
      writeFileSync p ''ash-security-report.html'' (fill_template ashData cssSection jsContent)"
  then have "generateReport p cwd (argv ! 2) ''ash-security-report.html'' =
      Returns ()
        ([Readdir (assetsDir cwd), ReadFile (argv ! 2), ReadFile (path_join [assetsDir cwd, j])] @
         cssReads @
         [WriteFile ''ash-security-report.html'' (fill_template ashData cssSection jsContent)])"
    by (intro generateReport_success) blast+
  with a show "main p cwd argv =
        \<lparr>exitCode = 0,
         calls = [Readdir (assetsDir cwd), ReadFile (argv ! 2),
                  ReadFile (path_join [assetsDir cwd, j])] @ cssReads @
                 [WriteFile ''ash-security-report.html''
                    (fill_template ashData cssSection jsContent)]\<rparr>"
    by (simp add: main_def)
qed

theorem C6_arguments_witness:
  "main (scenario_platform [''index-abc123.js'']) ''/repo'' [''node'', ''generate-report.js''] =
     \<lparr>exitCode = 1, calls = []\<rparr> \<and>
   main (scenario_platform [''index-abc123.js'']) ''/repo''
       [''node'', ''generate-report.js'', ''sample-ash-data.json''] =
     main (scenario_platform [''index-abc123.js'']) ''/repo''
       [''node'', ''generate-report.js'', ''sample-ash-data.json'', ''ash-security-report.html''] \<and>
   main (scenario_platform [''index-abc123.js'', ''index-abc123.css'']) ''/repo''
       [''node'', ''generate-report.js'', ''sample-ash-data.json''] =
     \<lparr>exitCode = 0,
      calls = [Readdir ''/repo/dist/assets'', ReadFile ''sample-ash-data.json'',
               ReadFile ''/repo/dist/assets/index-abc123.js'',
               ReadFile ''/repo/dist/assets/index-abc123.css'',
               WriteFile ''ash-security-report.html''
                 (fill_template ''{}'' (cssSection_of ''body{}'') ''app()'')]\<rparr>"
proof -
  let ?argv = "[''node'', ''generate-report.js'', ''sample-ash-data.json'']"
  let ?p = "scenario_platform [''index-abc123.js'', ''index-abc123.css'']"
  have h: "length ?argv = 3 \<and>
      readdirSync ?p (assetsDir ''/repo'') = Some [''index-abc123.js'', ''index-abc123.css''] \<and>
      find (\<lambda>file. endsWith file ''.js'') [''index-abc123.js'', ''index-abc123.css''] =
        Some ''index-abc123.js'' \<and>
      readFileSync ?p (?argv ! 2) = Some ''{}'' \<and>
      readFileSync ?p (path_join [assetsDir ''/repo'', ''index-abc123.js'']) = Some ''app()'' \<and>
      (case find (\<lambda>file. endsWith file ''.css'') [''index-abc123.js'', ''index-abc123.css''] of
         None \<Rightarrow> cssSection_of ''body{}'' = [] \<and>
           [ReadFile ''/repo/dist/assets/index-abc123.css''] = []
       | Some c \<Rightarrow>
           (\<exists>cssContent. readFileSync ?p (path_join [assetsDir ''/repo'', c]) = Some cssContent \<and>
              cssSection_of ''body{}'' = cssSection_of cssContent) \<and>
           [ReadFile ''/repo/dist/assets/index-abc123.css''] =
             [ReadFile (path_join [assetsDir ''/repo'', c])]) \<and>
      writeFileSync ?p ''ash-security-report.html''
        (fill_template ''{}'' (cssSection_of ''body{}'') ''app()'')"
    by (simp add: scenario_paths endsWith_def)
  from C6_arguments [of ?argv ?p "''/repo''"] h
  have 3: "main ?p ''/repo'' ?argv =
     \<lparr>exitCode = 0,
      calls = [Readdir (assetsDir ''/repo''), ReadFile (?argv ! 2),
               ReadFile (path_join [assetsDir ''/repo'', ''index-abc123.js''])] @
              [ReadFile ''/repo/dist/assets/index-abc123.css''] @
              [WriteFile ''ash-security-report.html''
                 (fill_template ''{}'' (cssSection_of ''body{}'') ''app()'')]\<rparr>"
    by blast
  from C6_arguments [of "[''node'', ''generate-report.js'']" "scenario_platform [''index-abc123.js'']" "''/repo''"]
  have 1: "main (scenario_platform [''index-abc123.js'']) ''/repo'' [''node'', ''generate-report.js''] =
     \<lparr>exitCode = 1, calls = []\<rparr>"
    by simp
  from C6_arguments [of ?argv "scenario_platform [''index-abc123.js'']" "''/repo''"]
  have 2: "main (scenario_platform [''index-abc123.js'']) ''/repo'' ?argv =
     main (scenario_platform [''index-abc123.js'']) ''/repo''
       [''node'', ''generate-report.js'', ''sample-ash-data.json'', ''ash-security-report.html'']"
    by simp
  from 1 2 3 show ?thesis
    by (simp add: scenario_paths)
qed

lemma scenario_run:
  "main (scenario_platform [''index-abc123.js'', ''index-abc123.css'']) ''/repo''
     [''node'', ''generate-report.js'', ''sample-ash-data.json''] =
     \<lparr>exitCode = 0,
      calls = [Readdir ''/repo/dist/assets'', ReadFile ''sample-ash-data.json'',
               ReadFile ''/repo/dist/assets/index-abc123.js'',
               ReadFile ''/repo/dist/assets/index-abc123.css'',
               WriteFile ''ash-security-report.html''
                 (fill_template ''{}'' (cssSection_of ''body{}'') ''app()'')]\<rparr>"
  by (simp add: main_def generateReport_def findAssetFiles_def scenario_paths endsWith_def)

text \<open>
  C6 as stated fails: without arguments the run exits with status 1 and calls nothing,
  where the run on \<^verbatim>\<open>sample-ash-data.json\<close> succeeds.
\<close>

theorem C6_counterexample:
  "main (scenario_platform [''index-abc123.js'', ''index-abc123.css'']) ''/repo''
     [''node'', ''generate-report.js''] = \<lparr>exitCode = 1, calls = []\<rparr> \<and>
   exitCode (main (scenario_platform [''index-abc123.js'', ''index-abc123.css'']) ''/repo''
     [''node'', ''generate-report.js'', ''sample-ash-data.json'']) = 0"
  by (simp add: scenario_run) (simp add: main_def)

text \<open>
  C1 (amended). When the assets directory cannot be listed or no name in it ends with
  \<^verbatim>\<open>.js\<close>, the run exits with status 1 and has written nothing: its only call to the
  file system, if any, is the listing of the assets directory, which comes before every
  read and before the write. When names end with \<^verbatim>\<open>.js\<close>, one or several, the first in
  the listing is the bundle and the asset lookup succeeds.
\<close>

theorem C1_missing_bundle:
  "((case readdirSync p (assetsDir cwd) of None \<Rightarrow> True
     | Some files \<Rightarrow> find (\<lambda>file. endsWith file ''.js'') files = None) \<longrightarrow>
      main p cwd argv =
        \<lparr>exitCode = 1, calls = (if length argv < 3 then [] else [Readdir (assetsDir cwd)])\<rparr>) \<and>
   (\<forall>files j. readdirSync p (assetsDir cwd) = Some files \<and>
       find (\<lambda>file. endsWith file ''.js'') files = Some j \<longrightarrow>
      findAssetFiles p cwd =
        Returns \<lparr>css = map_option (\<lambda>c. path_join [assetsDir cwd, c])
                         (find (\<lambda>file. endsWith file ''.css'') files),
                 js = path_join [assetsDir cwd, j]\<rparr>
          [Readdir (assetsDir cwd)])"
proof (intro conjI impI allI)
  assume "case readdirSync p (assetsDir cwd) of None \<Rightarrow> True
     | Some files \<Rightarrow> find (\<lambda>file. endsWith file ''.js'') files = None"
  then obtain e where "findAssetFiles p cwd = Throws e [Readdir (assetsDir cwd)]"
    using findAssetFiles_no_js by blast
  then show "main p cwd argv =
        \<lparr>exitCode = 1, calls = (if length argv < 3 then [] else [Readdir (assetsDir cwd)])\<rparr>"
    by (simp add: main_def generateReport_def Let_def)
next
  fix files j
  assume "readdirSync p (assetsDir cwd) = Some files \<and>
       find (\<lambda>file. endsWith file ''.js'') files = Some j"
  then show "findAssetFiles p cwd =
        Returns \<lparr>css = map_option (\<lambda>c. path_join [assetsDir cwd, c])
                         (find (\<lambda>file. endsWith file ''.css'') files),
                 js = path_join [assetsDir cwd, j]\<rparr>
          [Readdir (assetsDir cwd)]"
    by (simp add: findAssetFiles_first)
qed

theorem C1_missing_bundle_witness:
  "main (scenario_platform [''index-abc123.css'', ''notes.txt'']) ''/repo''
      [''node'', ''generate-report.js'', ''sample-ash-data.json'', ''out.html''] =
     \<lparr>exitCode = 1, calls = [Readdir ''/repo/dist/assets'']\<rparr> \<and>
   findAssetFiles (scenario_platform [''index-abc123.js'', ''vendor-def456.js'']) ''/repo'' =
     Returns \<lparr>css = None, js = ''/repo/dist/assets/index-abc123.js''\<rparr>
       [Readdir ''/repo/dist/assets'']"
proof -
  have a: "case readdirSync (scenario_platform [''index-abc123.css'', ''notes.txt'']) (assetsDir ''/repo'') of
      None \<Rightarrow> True | Some files \<Rightarrow> find (\<lambda>file. endsWith file ''.js'') files = None"
    by (simp add: scenario_paths endsWith_def)
  have b: "readdirSync (scenario_platform [''index-abc123.js'', ''vendor-def456.js'']) (assetsDir ''/repo'') =
        Some [''index-abc123.js'', ''vendor-def456.js''] \<and>
      find (\<lambda>file. endsWith file ''.js'') [''index-abc123.js'', ''vendor-def456.js''] =
        Some ''index-abc123.js''"
    by (simp add: scenario_paths endsWith_def)
  from C1_missing_bundle [of "scenario_platform [''index-abc123.css'', ''notes.txt'']" "''/repo''"
      "[''node'', ''generate-report.js'', ''sample-ash-data.json'', ''out.html'']"] a
  have 1: "main (scenario_platform [''index-abc123.css'', ''notes.txt'']) ''/repo''
      [''node'', ''generate-report.js'', ''sample-ash-data.json'', ''out.html''] =
     \<lparr>exitCode = 1,
      calls = (if length [''node'', ''generate-report.js'', ''sample-ash-data.json'', ''out.html''] < 3
               then [] else [Readdir (assetsDir ''/repo'')])\<rparr>"
    by blast
  from C1_missing_bundle [of "scenario_platform [''index-abc123.js'', ''vendor-def456.js'']" "''/repo''" "[]"] b
  have 2: "findAssetFiles (scenario_platform [''index-abc123.js'', ''vendor-def456.js'']) ''/repo'' =
     Returns \<lparr>css = map_option (\<lambda>c. path_join [assetsDir ''/repo'', c])
              (find (\<lambda>file. endsWith file ''.css'') [''index-abc123.js'', ''vendor-def456.js'']),
          js = path_join [assetsDir ''/repo'', ''index-abc123.js'']\<rparr>
       [Readdir (assetsDir ''/repo'')]"
    by blast
  from 1 2 show ?thesis
    by (simp add: scenario_paths endsWith_def)
qed

text \<open>
  C1 as stated fails: with two names ending in \<^verbatim>\<open>.js\<close> the run exits with status 0
  after writing the report, built from the first of the two.
\<close>

theorem C1_counterexample:
  "main (scenario_platform [''index-abc123.js'', ''vendor-def456.js'']) ''/repo''
      [''node'', ''generate-report.js'', ''sample-ash-data.json'', ''out.html''] =
     \<lparr>exitCode = 0,
      calls = [Readdir ''/repo/dist/assets'', ReadFile ''sample-ash-data.json'',
               ReadFile ''/repo/dist/assets/index-abc123.js'',
               WriteFile ''out.html'' (fill_template ''{}'' [] ''app()'')]\<rparr>"
  by (simp add: main_def generateReport_def findAssetFiles_def scenario_paths endsWith_def)

section \<open>The substitutions of the assembler\<close>

lemma template_split:
  "template = template_head @ ''__CSS_SECTION__'' @ template_body @ ''__ASH_DATA__'' @
     template_script @ ''__JS_CONTENT__'' @ template_tail"
  by (simp add: template_def template_head_def template_body_def template_script_def
      template_tail_def)


subsection \<open>indexOf\<close>

lemma take_eq_imp_le:
  assumes "take (length pat) s = pat"
  shows "length pat \<le> length s"
proof -
  from assms have "length (take (length pat) s) = length pat" by simp
  then show ?thesis by simp
qed

lemma take_append_le: "n \<le> length xs \<Longrightarrow> take n (xs @ ys) = take n xs"
  by simp

lemma indexOf_SomeD:
  "indexOf s pat = Some i \<Longrightarrow> i + length pat \<le> length s \<and> take (length pat) (drop i s) = pat"
proof (induction s arbitrary: i)
  case Nil
  then show ?case by (simp split: if_splits)
next
  case (Cons c s)
  show ?case
  proof (cases "take (length pat) (c # s) = pat")
    case True
    with Cons.prems have "i = 0" by simp
    moreover from True have "length pat \<le> length (c # s)"
      by (rule take_eq_imp_le)
    ultimately show ?thesis using True by simp
  next
    case False
    with Cons.prems obtain j where j: "indexOf s pat = Some j" "i = Suc j"
      by auto
    from Cons.IH [OF j(1)] j(2) show ?thesis by simp
  qed
qed

lemma indexOf_append_found:
  "indexOf s pat = Some i \<Longrightarrow> indexOf (s @ t) pat = Some i"
proof (induction s arbitrary: i)
  case Nil
  then show ?case by (cases t) (simp_all split: if_splits)
next
  case (Cons c s)
  show ?case
  proof (cases "take (length pat) (c # s) = pat")
    case True
    then have "length pat \<le> length (c # s)"
      by (rule take_eq_imp_le)
    then have "take (length pat) ((c # s) @ t) = take (length pat) (c # s)"
      by (rule take_append_le)
    with True Cons.prems show ?thesis by simp
  next
    case False
    with Cons.prems obtain j where j: "indexOf s pat = Some j" "i = Suc j"
      by auto
    from indexOf_SomeD [OF j(1)] have "length pat \<le> length (c # s)" by simp
    then have "take (length pat) ((c # s) @ t) = take (length pat) (c # s)"
      by (rule take_append_le)
    with False Cons.IH [OF j(1)] j(2) show ?thesis by simp
  qed
qed

text \<open>A character that is not in the pattern separates the search.\<close>

lemma take_sep_neq:
  assumes "c \<notin> set pat" "pat \<noteq> []"
  shows "(take (length pat) (x @ c # y) = pat) = (take (length pat) x = pat)"
proof (cases "length pat \<le> length x")
  case True
  then show ?thesis by simp
next
  case False
  then have lt: "length x < length pat" by simp
  then have "take (length pat) (x @ c # y) ! length x = c"
    by (simp add: nth_append)
  moreover have "length x < length (take (length pat) (x @ c # y))"
    using lt by simp
  ultimately have "c \<in> set (take (length pat) (x @ c # y))"
    by (metis nth_mem)
  with assms(1) have "take (length pat) (x @ c # y) \<noteq> pat" by metis
  moreover have "take (length pat) x \<noteq> pat"
    using lt take_eq_imp_le [of pat x] by auto
  ultimately show ?thesis by simp
qed

lemma indexOf_sep:
  assumes "c \<notin> set pat" "pat \<noteq> []"
  shows "indexOf (x @ c # y) pat =
     (case indexOf x pat of
        Some i \<Rightarrow> Some i
      | None \<Rightarrow> map_option (\<lambda>j. length x + 1 + j) (indexOf y pat))"
proof (induction x)
  case Nil
  have "take (length pat) (c # y) \<noteq> pat"
    using take_sep_neq [OF assms, of "[]" y] assms(2) by simp
  then show ?case using assms(2) by (simp add: option.map_ident cong: option.map_cong)
next
  case (Cons a x)
  have "(take (length pat) ((a # x) @ c # y) = pat) = (take (length pat) (a # x) = pat)"
    by (rule take_sep_neq [OF assms])
  then show ?case
    using Cons.IH by (cases "indexOf x pat"; cases "indexOf y pat") auto
qed

lemma String_replace_at:
  assumes "indexOf (a @ pat @ b) pat = Some (length a)"
  shows "String_replace (a @ pat @ b) pat r = a @ GetSubstitution pat a b r @ b"
  using assms by (simp add: String_replace_def)


lemma indexOf_occurs: "indexOf (u @ pat @ v) pat \<noteq> None"
proof (induction u)
  case Nil
  have t: "take (length pat) (pat @ v) = pat" by simp
  show ?case
  proof (cases "pat @ v")
    case Nil
    then show ?thesis by simp
  next
    case (Cons a l)
    from t have "take (length pat) (a # l) = pat" unfolding Cons .
    then have "indexOf (a # l) pat = Some 0" by simp
    then show ?thesis using Cons by simp
  qed
next
  case (Cons c u)
  then show ?case by auto
qed

lemma indexOf_split:
  assumes "indexOf s pat = Some i"
  shows "s = take i s @ pat @ drop (i + length pat) s"
proof -
  from indexOf_SomeD [OF assms] have "take (length pat) (drop i s) = pat" by simp
  then have "drop i s = pat @ drop (length pat) (drop i s)"
    by (metis append_take_drop_id)
  then have "s = take i s @ pat @ drop (length pat) (drop i s)"
    by (metis append_take_drop_id)
  then show ?thesis by (simp add: add.commute)
qed

subsection \<open>GetSubstitution\<close>

lemma GetSubstitution_plain:
  "CHR ''$'' \<notin> set x \<Longrightarrow> GetSubstitution m p f (x @ y) = x @ GetSubstitution m p f y"
proof (induction x)
  case Nil
  show ?case by simp
next
  case (Cons c x)
  then show ?case by (cases "x @ y") auto
qed

lemma GetSubstitution_append:
  assumes "x \<noteq> []" "hd x \<notin> {CHR ''$'', CHR ''&'', CHR 0x60, CHR 0x27}"
  shows "GetSubstitution m p f (d @ x) = GetSubstitution m p f d @ GetSubstitution m p f x"
proof (induction m p f d rule: GetSubstitution.induct)
  case (1 m p f)
  show ?case by simp
next
  case (2 m p f c)
  from assms obtain a r where "x = a # r" "a \<notin> {CHR ''$'', CHR ''&'', CHR 0x60, CHR 0x27}"
    by (cases x) auto
  then show ?case by simp
next
  case (3 m p f c d r)
  then show ?case by simp
qed

lemma GetSubstitution_keeps:
  assumes "indexOf s pat = Some i" "pat \<noteq> []" "CHR ''$'' \<notin> set pat"
    "hd pat \<notin> {CHR ''$'', CHR ''&'', CHR 0x60, CHR 0x27}"
  shows "indexOf (GetSubstitution m p f s) pat \<noteq> None"
proof -
  let ?d1 = "take i s" and ?d2 = "drop (i + length pat) s"
  have "s = ?d1 @ pat @ ?d2" by (rule indexOf_split [OF assms(1)])
  then have "GetSubstitution m p f s = GetSubstitution m p f (?d1 @ pat @ ?d2)" by simp
  also have "\<dots> = GetSubstitution m p f ?d1 @ GetSubstitution m p f (pat @ ?d2)"
    using assms(2,4) by (intro GetSubstitution_append) auto
  also have "\<dots> = GetSubstitution m p f ?d1 @ pat @ GetSubstitution m p f ?d2"
    using assms(3) by (simp add: GetSubstitution_plain)
  finally show ?thesis by (simp add: indexOf_occurs)
qed


subsection \<open>The three substitutions\<close>

lemma data_first:
  "indexOf template ''__ASH_DATA__'' =
     Some (length (template_head @ ''__CSS_SECTION__'' @ template_body))"
  by (simp add: template_def template_head_def template_body_def)

lemma css_first:
  "indexOf (template_head @ ''__CSS_SECTION__'') ''__CSS_SECTION__'' = Some (length template_head)"
  by (simp add: template_head_def)

lemma replace_data:
  "String_replace template ''__ASH_DATA__'' ashData =
     template_head @ ''__CSS_SECTION__'' @ template_body @ data_region ashData @
     template_script @ ''__JS_CONTENT__'' @ template_tail"
proof -
  let ?a = "template_head @ ''__CSS_SECTION__'' @ template_body"
  let ?b = "template_script @ ''__JS_CONTENT__'' @ template_tail"
  have t: "template = ?a @ ''__ASH_DATA__'' @ ?b"
    by (simp add: template_split)
  have "indexOf (?a @ ''__ASH_DATA__'' @ ?b) ''__ASH_DATA__'' = Some (length ?a)"
    using data_first unfolding t .
  from String_replace_at [OF this, of ashData] show ?thesis
    unfolding t [symmetric] data_region_def by simp
qed

lemma replace_data_css:
  "String_replace (String_replace template ''__ASH_DATA__'' ashData) ''__CSS_SECTION__'' cssSection =
     template_head @ css_region ashData cssSection @ template_body @ data_region ashData @
     template_script @ ''__JS_CONTENT__'' @ template_tail"
proof -
  let ?b = "template_body @ data_region ashData @ template_script @ ''__JS_CONTENT__'' @ template_tail"
  have "indexOf ((template_head @ ''__CSS_SECTION__'') @ ?b) ''__CSS_SECTION__'' =
      Some (length template_head)"
    by (rule indexOf_append_found [OF css_first])
  then have "indexOf (template_head @ ''__CSS_SECTION__'' @ ?b) ''__CSS_SECTION__'' =
      Some (length template_head)"
    by simp
  from String_replace_at [OF this, of cssSection] show ?thesis
    unfolding replace_data css_region_def by simp
qed


lemma indexOf_sep_Some:
  assumes "c \<notin> set pat" "pat \<noteq> []" "indexOf x pat = None" "indexOf y pat = Some j"
  shows "indexOf (x @ c # y) pat = Some (length x + 1 + j)"
  using indexOf_sep [OF assms(1,2), of x y] assms(3,4) by simp

lemma head_cut:
  "\<exists>h. template_head = h @ [CHR ''>''] \<and> indexOf h ''__JS_CONTENT__'' = None"
  by (rule exI [of _ "butlast template_head"]) (simp add: template_head_def)

lemma body_cut:
  "\<exists>b. template_body = CHR 0x0A # b @ [CHR ''>''] \<and> indexOf b ''__JS_CONTENT__'' = None"
  by (rule exI [of _ "butlast (tl template_body)"]) (simp add: template_body_def)

lemma script_cut:
  "\<exists>s. template_script = CHR ''<'' # s \<and>
     indexOf (s @ ''__JS_CONTENT__'' @ template_tail) ''__JS_CONTENT__'' = Some (length s)"
  by (rule exI [of _ "tl template_script"]) (simp add: template_script_def template_tail_def)

text \<open>
  Where the third substitution looks: past the head, the style block and the body when
  none of them holds the placeholder.
\<close>

lemma indexOf_js_skip:
  assumes "indexOf C ''__JS_CONTENT__'' = None" and "indexOf R ''__JS_CONTENT__'' = Some j"
  shows "indexOf (template_head @ C @ template_body @ R) ''__JS_CONTENT__'' =
     Some (length (template_head @ C @ template_body) + j)"
proof -
  define pat where "pat = ''__JS_CONTENT__''"
  have sep: "CHR ''>'' \<notin> set pat" "CHR 0x0A \<notin> set pat" "pat \<noteq> []"
    by (simp_all add: pat_def)
  from head_cut obtain h where h: "template_head = h @ [CHR ''>'']" "indexOf h pat = None"
    unfolding pat_def by blast
  from body_cut obtain b where b: "template_body = CHR 0x0A # b @ [CHR ''>'']" "indexOf b pat = None"
    unfolding pat_def by blast
  from assms have C: "indexOf C pat = None" and R: "indexOf R pat = Some j"
    unfolding pat_def by blast+
  have 3: "indexOf (b @ CHR ''>'' # R) pat = Some (length b + 1 + j)"
    by (rule indexOf_sep_Some [OF sep(1) sep(3) b(2) R])
  have 2: "indexOf (C @ CHR 0x0A # (b @ CHR ''>'' # R)) pat = Some (length C + 1 + (length b + 1 + j))"
    by (rule indexOf_sep_Some [OF sep(2) sep(3) C 3])
  have 1: "indexOf (h @ CHR ''>'' # (C @ CHR 0x0A # (b @ CHR ''>'' # R))) pat =
      Some (length h + 1 + (length C + 1 + (length b + 1 + j)))"
    by (rule indexOf_sep_Some [OF sep(1) sep(3) h(2) 2])
  have w: "template_head @ C @ template_body @ R = h @ CHR ''>'' # (C @ CHR 0x0A # (b @ CHR ''>'' # R))"
    unfolding h(1) b(1) by simp
  have l: "length (template_head @ C @ template_body) + j =
      length h + 1 + (length C + 1 + (length b + 1 + j))"
    unfolding h(1) b(1) by simp
  show ?thesis
    unfolding pat_def [symmetric] w l by (rule 1)
qed

lemma replace_js_in_data:
  assumes "indexOf C ''__JS_CONTENT__'' = None" and "indexOf D ''__JS_CONTENT__'' = Some i"
  shows "String_replace
      (template_head @ C @ template_body @ D @ template_script @ ''__JS_CONTENT__'' @ template_tail)
      ''__JS_CONTENT__'' jsContent =
    template_head @ C @ template_body @ take i D @
    GetSubstitution ''__JS_CONTENT__'' (template_head @ C @ template_body @ take i D)
      (drop (i + length ''__JS_CONTENT__'') D @ template_script @ ''__JS_CONTENT__'' @ template_tail)
      jsContent @
    drop (i + length ''__JS_CONTENT__'') D @ template_script @ ''__JS_CONTENT__'' @ template_tail"
proof -
  define pat where "pat = ''__JS_CONTENT__''"
  define t where "t = template_script @ pat @ template_tail"
  define a where "a = template_head @ C @ template_body @ take i D"
  define b where "b = drop (i + length pat) D @ t"
  from assms have C: "indexOf C pat = None" and Di: "indexOf D pat = Some i"
    unfolding pat_def by blast+
  from indexOf_SomeD [OF Di] have i: "i \<le> length D" by simp
  have D: "D = take i D @ pat @ drop (i + length pat) D"
    by (rule indexOf_split [OF Di])
  have "indexOf (D @ t) pat = Some i"
    by (rule indexOf_append_found [OF Di])
  then have "indexOf (template_head @ C @ template_body @ D @ t) pat =
      Some (length (template_head @ C @ template_body) + i)"
    using indexOf_js_skip [of C "D @ t" i] C unfolding pat_def by blast
  moreover have "length a = length (template_head @ C @ template_body) + i"
    unfolding a_def using i by simp
  moreover have w: "template_head @ C @ template_body @ D @ t = a @ pat @ b"
  proof -
    have "template_head @ C @ template_body @ D @ t =
        template_head @ C @ template_body @ (take i D @ pat @ drop (i + length pat) D) @ t"
      using D by simp
    then show ?thesis unfolding a_def b_def by simp
  qed
  ultimately have "indexOf (a @ pat @ b) pat = Some (length a)"
    by simp
  then have "String_replace (a @ pat @ b) pat jsContent = a @ GetSubstitution pat a b jsContent @ b"
    by (rule String_replace_at)
  then have "String_replace (template_head @ C @ template_body @ D @ t) pat jsContent =
      a @ GetSubstitution pat a b jsContent @ b"
    unfolding w .
  then show ?thesis
    unfolding a_def b_def t_def pat_def by simp
qed

lemma replace_js_slot:
  assumes "indexOf C ''__JS_CONTENT__'' = None" and "indexOf D ''__JS_CONTENT__'' = None"
  shows "String_replace
      (template_head @ C @ template_body @ D @ template_script @ ''__JS_CONTENT__'' @ template_tail)
      ''__JS_CONTENT__'' jsContent =
    template_head @ C @ template_body @ D @ template_script @
    GetSubstitution ''__JS_CONTENT__'' (template_head @ C @ template_body @ D @ template_script)
      template_tail jsContent @
    template_tail"
proof -
  define pat where "pat = ''__JS_CONTENT__''"
  define a where "a = template_head @ C @ template_body @ D @ template_script"
  have sep: "CHR ''<'' \<notin> set pat" "pat \<noteq> []"
    by (simp_all add: pat_def)
  from script_cut obtain s where s: "template_script = CHR ''<'' # s"
      "indexOf (s @ pat @ template_tail) pat = Some (length s)"
    unfolding pat_def by blast
  from assms have C: "indexOf C pat = None" and Dn: "indexOf D pat = None"
    unfolding pat_def by blast+
  have "indexOf (D @ CHR ''<'' # (s @ pat @ template_tail)) pat = Some (length D + 1 + length s)"
    by (rule indexOf_sep_Some [OF sep Dn s(2)])
  then have "indexOf (D @ template_script @ pat @ template_tail) pat =
      Some (length D + length template_script)"
    unfolding s(1) by simp
  then have "indexOf (template_head @ C @ template_body @ D @ template_script @ pat @ template_tail) pat =
      Some (length (template_head @ C @ template_body) + (length D + length template_script))"
    using indexOf_js_skip [of C "D @ template_script @ pat @ template_tail"] C
    unfolding pat_def by blast
  then have "indexOf (a @ pat @ template_tail) pat = Some (length a)"
    unfolding a_def by simp
  then have "String_replace (a @ pat @ template_tail) pat jsContent =
      a @ GetSubstitution pat a template_tail jsContent @ template_tail"
    by (rule String_replace_at)
  then show ?thesis
    unfolding a_def pat_def by simp
qed


lemma indexOf_least:
  "indexOf s pat = Some i \<Longrightarrow> j < i \<Longrightarrow> take (length pat) (drop j s) \<noteq> pat"
proof (induction s arbitrary: i j)
  case Nil
  then show ?case by (simp split: if_splits)
next
  case (Cons c s)
  from Cons.prems have n: "take (length pat) (c # s) \<noteq> pat"
    by (auto split: if_splits)
  with Cons.prems obtain k where k: "indexOf s pat = Some k" "i = Suc k"
    by auto
  show ?case
  proof (cases j)
    case 0
    with n show ?thesis by simp
  next
    case (Suc m)
    with Cons.prems k have "m < k" by simp
    from Cons.IH [OF k(1) this] Suc show ?thesis by simp
  qed
qed

lemma String_replace_first:
  assumes "indexOf s pat = Some i"
  shows "String_replace s pat r =
      take i s @ GetSubstitution pat (take i s) (drop (i + length pat) s) r @
      drop (i + length pat) s"
  using assms by (simp add: String_replace_def Let_def)

text \<open>
  C10 (amended). Each \<^verbatim>\<open>replace\<close> rewrites the first occurrence of its placeholder
  only (no earlier position holds the pattern), and the data placeholder is substituted
  before the style and the script placeholders. The template's style placeholder stands
  before the data slot, so the style block always lands in the template's own slot,
  whatever the data contains: a \<^verbatim>\<open>__CSS_SECTION__\<close> inside the data stays as text.
  When the data contains \<^verbatim>\<open>__JS_CONTENT__\<close> and the style block put into the
  document does not, the script lands at the first occurrence inside the embedded data
  region, and the template's script slot keeps its placeholder text.
\<close>

theorem C10_substitution_order:
  "(\<forall>s pat r i. indexOf s pat = Some i \<longrightarrow>
      String_replace s pat r =
        take i s @ GetSubstitution pat (take i s) (drop (i + length pat) s) r @
        drop (i + length pat) s \<and>
      (\<forall>j<i. take (length pat) (drop j s) \<noteq> pat)) \<and>
   String_replace (String_replace template ''__ASH_DATA__'' ashData) ''__CSS_SECTION__'' cssSection =
     template_head @ css_region ashData cssSection @ template_body @ data_region ashData @
     template_script @ ''__JS_CONTENT__'' @ template_tail \<and>
   (indexOf ashData ''__JS_CONTENT__'' \<noteq> None \<and>
    indexOf (css_region ashData cssSection) ''__JS_CONTENT__'' = None \<longrightarrow>
    (\<exists>i. indexOf (data_region ashData) ''__JS_CONTENT__'' = Some i \<and>
         fill_template ashData cssSection jsContent =
           template_head @ css_region ashData cssSection @ template_body @
           take i (data_region ashData) @
           GetSubstitution ''__JS_CONTENT__''
             (template_head @ css_region ashData cssSection @ template_body @
              take i (data_region ashData))
             (drop (i + length ''__JS_CONTENT__'') (data_region ashData) @
              template_script @ ''__JS_CONTENT__'' @ template_tail)
             jsContent @
           drop (i + length ''__JS_CONTENT__'') (data_region ashData) @
           template_script @ ''__JS_CONTENT__'' @ template_tail))"
proof (intro conjI allI impI)
  fix s pat r i
  assume "indexOf s pat = Some i"
  then show "String_replace s pat r =
        take i s @ GetSubstitution pat (take i s) (drop (i + length pat) s) r @
        drop (i + length pat) s"
    by (rule String_replace_first)
next
  fix s pat r i j
  assume "indexOf s pat = Some i" "j < i"
  then show "take (length pat) (drop j s) \<noteq> pat"
    by (rule indexOf_least)
next
  show "String_replace (String_replace template ''__ASH_DATA__'' ashData) ''__CSS_SECTION__'' cssSection =
     template_head @ css_region ashData cssSection @ template_body @ data_region ashData @
     template_script @ ''__JS_CONTENT__'' @ template_tail"
    by (rule replace_data_css)
next
  assume a: "indexOf ashData ''__JS_CONTENT__'' \<noteq> None \<and>
    indexOf (css_region ashData cssSection) ''__JS_CONTENT__'' = None"
  then obtain k where k: "indexOf ashData ''__JS_CONTENT__'' = Some k"
    by blast
  have "indexOf (data_region ashData) ''__JS_CONTENT__'' \<noteq> None"
    unfolding data_region_def by (rule GetSubstitution_keeps [OF k]) simp_all
  then obtain i where i: "indexOf (data_region ashData) ''__JS_CONTENT__'' = Some i"
    by blast
  from a have c: "indexOf (css_region ashData cssSection) ''__JS_CONTENT__'' = None"
    by blast
  have "fill_template ashData cssSection jsContent =
      String_replace
        (template_head @ css_region ashData cssSection @ template_body @ data_region ashData @
         template_script @ ''__JS_CONTENT__'' @ template_tail)
        ''__JS_CONTENT__'' jsContent"
    unfolding fill_template_def replace_data_css ..
  also note replace_js_in_data [OF c i, of jsContent]
  finally show "\<exists>i. indexOf (data_region ashData) ''__JS_CONTENT__'' = Some i \<and>
         fill_template ashData cssSection jsContent =
           template_head @ css_region ashData cssSection @ template_body @
           take i (data_region ashData) @
           GetSubstitution ''__JS_CONTENT__''
             (template_head @ css_region ashData cssSection @ template_body @
              take i (data_region ashData))
             (drop (i + length ''__JS_CONTENT__'') (data_region ashData) @
              template_script @ ''__JS_CONTENT__'' @ template_tail)
             jsContent @
           drop (i + length ''__JS_CONTENT__'') (data_region ashData) @
           template_script @ ''__JS_CONTENT__'' @ template_tail"
    using i by blast
qed

lemma example_data_region: "data_region ''[__JS_CONTENT__]'' = ''[__JS_CONTENT__]''"
  by (simp add: data_region_def)

lemma example_css_region:
  "css_region ashData (cssSection_of ''body{}'') = cssSection_of ''body{}''"
  by (simp add: css_region_def cssSection_of_def)

theorem C10_substitution_order_witness:
  "indexOf ''[__JS_CONTENT__]'' ''__JS_CONTENT__'' \<noteq> None \<and>
   indexOf (css_region ''[__JS_CONTENT__]'' (cssSection_of ''body{}'')) ''__JS_CONTENT__'' = None \<and>
   fill_template ''[__JS_CONTENT__]'' (cssSection_of ''body{}'') ''app()'' =
     template_head @ cssSection_of ''body{}'' @ template_body @
     ''[app()]'' @ template_script @ ''__JS_CONTENT__'' @ template_tail"
proof -
  have h: "indexOf ''[__JS_CONTENT__]'' ''__JS_CONTENT__'' \<noteq> None \<and>
      indexOf (css_region ''[__JS_CONTENT__]'' (cssSection_of ''body{}'')) ''__JS_CONTENT__'' = None"
    by (simp add: example_css_region) (simp add: cssSection_of_def)
  from C10_substitution_order [of "''[__JS_CONTENT__]''" "cssSection_of ''body{}''" "''app()''"] h
  obtain i where i: "indexOf (data_region ''[__JS_CONTENT__]'') ''__JS_CONTENT__'' = Some i"
    and f: "fill_template ''[__JS_CONTENT__]'' (cssSection_of ''body{}'') ''app()'' =
           template_head @ css_region ''[__JS_CONTENT__]'' (cssSection_of ''body{}'') @ template_body @
           take i (data_region ''[__JS_CONTENT__]'') @
           GetSubstitution ''__JS_CONTENT__''
             (template_head @ css_region ''[__JS_CONTENT__]'' (cssSection_of ''body{}'') @ template_body @
              take i (data_region ''[__JS_CONTENT__]''))
             (drop (i + length ''__JS_CONTENT__'') (data_region ''[__JS_CONTENT__]'') @
              template_script @ ''__JS_CONTENT__'' @ template_tail)
             ''app()'' @
           drop (i + length ''__JS_CONTENT__'') (data_region ''[__JS_CONTENT__]'') @
           template_script @ ''__JS_CONTENT__'' @ template_tail"
    by blast
  from i have "i = 1"
    by (simp add: example_data_region)
  with f have "fill_template ''[__JS_CONTENT__]'' (cssSection_of ''body{}'') ''app()'' =
     template_head @ cssSection_of ''body{}'' @ template_body @
     ''[app()]'' @ template_script @ ''__JS_CONTENT__'' @ template_tail"
    by (simp add: example_data_region example_css_region)
  with h show ?thesis by blast
qed

text \<open>
  C10 as stated fails for the style placeholder: with the data \<^verbatim>\<open>__CSS_SECTION__\<close>
  the style block is in the template's slot and the data region still holds the
  placeholder text; the document the claim describes is a different one.
\<close>

theorem C10_counterexample:
  "fill_template ''__CSS_SECTION__'' (cssSection_of ''body{}'') ''app()'' =
     template_head @ cssSection_of ''body{}'' @ template_body @
     ''__CSS_SECTION__'' @ template_script @ ''app()'' @ template_tail \<and>
   fill_template ''__CSS_SECTION__'' (cssSection_of ''body{}'') ''app()'' \<noteq>
     template_head @ ''__CSS_SECTION__'' @ template_body @
     cssSection_of ''body{}'' @ template_script @ ''app()'' @ template_tail"
proof -
  have d: "data_region ''__CSS_SECTION__'' = ''__CSS_SECTION__''"
    by (simp add: data_region_def)
  have c: "indexOf (cssSection_of ''body{}'') ''__JS_CONTENT__'' = None"
    by (simp add: cssSection_of_def)
  have n: "indexOf ''__CSS_SECTION__'' ''__JS_CONTENT__'' = None"
    by simp
  have "fill_template ''__CSS_SECTION__'' (cssSection_of ''body{}'') ''app()'' =
      String_replace
        (template_head @ cssSection_of ''body{}'' @ template_body @ ''__CSS_SECTION__'' @
         template_script @ ''__JS_CONTENT__'' @ template_tail)
        ''__JS_CONTENT__'' ''app()''"
    unfolding fill_template_def replace_data_css example_css_region d ..
  also have "\<dots> = template_head @ cssSection_of ''body{}'' @ template_body @
     ''__CSS_SECTION__'' @ template_script @ ''app()'' @ template_tail"
    unfolding replace_js_slot [OF c n] by simp
  finally have e: "fill_template ''__CSS_SECTION__'' (cssSection_of ''body{}'') ''app()'' =
     template_head @ cssSection_of ''body{}'' @ template_body @
     ''__CSS_SECTION__'' @ template_script @ ''app()'' @ template_tail" .
  show ?thesis
    unfolding e by (simp add: cssSection_of_def)
qed

end
